theory Spec2Isabelle
  imports Complex_Main "HOL-Library.AList" "HOL-Library.Multiset"
begin

section \<open>Card and effect model (\<^verbatim>\<open>gamemain.py\<close>)\<close>

text \<open>
  The enums of the source. Their values are Chinese words; a Python string is modelled by
  the list of its UTF-8 bytes, so that the string comparisons of the source
  (\<^verbatim>\<open>EffectType(effect["type"])\<close>, \<^verbatim>\<open>"..." in traits\<close>) are comparisons of these lists.
\<close>

datatype Phase = TURN_START | PLAYER_ACTION | TURN_END

datatype EffectType = DAMAGE | SPIRIT | FOCUS | DRAW | PLAY_COUNT | MOOD | DIRECT_DAMAGE

datatype CardTrait = EXHAUST | BYPASS_SPIRIT

datatype error = ValueError | EOFError | SystemExit | OverflowError

fun EffectType_value :: "EffectType \<Rightarrow> string" where
  "EffectType_value DAMAGE = [CHR 0xE4, CHR 0xBC, CHR 0xA4, CHR 0xE5, CHR 0xAE, CHR 0xB3]"
| "EffectType_value SPIRIT = [CHR 0xE5, CHR 0x85, CHR 0x83, CHR 0xE6, CHR 0xB0, CHR 0x94]"
| "EffectType_value FOCUS = [CHR 0xE9, CHR 0x9B, CHR 0x86, CHR 0xE4, CHR 0xB8, CHR 0xAD]"
| "EffectType_value DRAW = [CHR 0xE6, CHR 0x8A, CHR 0xBD, CHR 0xE7, CHR 0x89, CHR 0x8C]"
| "EffectType_value PLAY_COUNT =
     [CHR 0xE5, CHR 0x87, CHR 0xBA, CHR 0xE7, CHR 0x89, CHR 0x8C,
      CHR 0xE6, CHR 0x9C, CHR 0xBA, CHR 0xE4, CHR 0xBC, CHR 0x9A]"
| "EffectType_value MOOD = [CHR 0xE5, CHR 0xA5, CHR 0xBD, CHR 0xE8, CHR 0xB0, CHR 0x83]"
| "EffectType_value DIRECT_DAMAGE =
     [CHR 0xE7, CHR 0x9B, CHR 0xB4, CHR 0xE6, CHR 0x8E, CHR 0xA5,
      CHR 0xE4, CHR 0xBC, CHR 0xA4, CHR 0xE5, CHR 0xAE, CHR 0xB3]"

fun CardTrait_value :: "CardTrait \<Rightarrow> string" where
  "CardTrait_value EXHAUST = [CHR 0xE6, CHR 0xB6, CHR 0x88, CHR 0xE8, CHR 0x80, CHR 0x97]"
| "CardTrait_value BYPASS_SPIRIT =
     [CHR 0xE6, CHR 0x97, CHR 0xA0, CHR 0xE8, CHR 0xA7, CHR 0x86,
      CHR 0xE5, CHR 0x85, CHR 0x83, CHR 0xE6, CHR 0xB0, CHR 0x94]"

text \<open>\<^verbatim>\<open>EffectType(v)\<close>: the member whose value is \<open>v\<close>, in declaration order; ValueError if none.\<close>

definition EffectType_of :: "string \<Rightarrow> error + EffectType" where
  "EffectType_of v =
     (case find (\<lambda>t. EffectType_value t = v)
             [DAMAGE, SPIRIT, FOCUS, DRAW, PLAY_COUNT, MOOD, DIRECT_DAMAGE] of
        None \<Rightarrow> Inl ValueError
      | Some t \<Rightarrow> Inr t)"

record Effect =
  eff_type :: EffectType
  eff_value :: int
  eff_bypass_spirit :: bool

text \<open>
  A card object. \<open>shuffle_random\<close> and \<open>shuffle_priority\<close> are Python floats; they are
  modelled by reals (the only operations on them are one addition and comparisons).
\<close>

record Card =
  name :: string
  effects :: "Effect list"
  cost :: int
  bypass_spirit :: bool
  shuffle_priority :: real
  exhaust :: bool
  shuffle_random :: real

text \<open>The effect dictionaries and card dictionaries of the deck configuration.\<close>

record EffectDict =
  d_type :: string
  d_value :: int
  d_bypass_spirit :: "bool option"

record CardData =
  c_name :: string
  c_effects :: "EffectDict list"
  c_cost :: int
  c_count :: "int option"
  c_traits :: "string list option"
  c_shuffle_priority :: "real option"

text \<open>\<^verbatim>\<open>Card.__init__\<close>: the loop over the effect dictionaries stops at the first ValueError.\<close>

fun Card_init_effects :: "EffectDict list \<Rightarrow> Effect list \<Rightarrow> error + Effect list" where
  "Card_init_effects [] acc = Inr acc"
| "Card_init_effects (effect # rest) acc =
     (let bypass = (case d_bypass_spirit effect of None \<Rightarrow> False | Some b \<Rightarrow> b) in
      case EffectType_of (d_type effect) of
        Inl e \<Rightarrow> Inl e
      | Inr t \<Rightarrow>
          Card_init_effects rest
            (acc @ [\<lparr>eff_type = t, eff_value = d_value effect, eff_bypass_spirit = bypass\<rparr>]))"

definition Card_init :: "string \<Rightarrow> EffectDict list \<Rightarrow> int \<Rightarrow> bool \<Rightarrow> real \<Rightarrow> bool \<Rightarrow> error + Card" where
  "Card_init nm effs cst bypass prio exh =
     (case Card_init_effects effs [] of
        Inl e \<Rightarrow> Inl e
      | Inr es \<Rightarrow>
          Inr \<lparr>name = nm, effects = es, cost = cst, bypass_spirit = bypass,
               shuffle_priority = prio, exhaust = exh, shuffle_random = 0\<rparr>)"

section \<open>Game state\<close>

text \<open>
  Card objects live in a store; a deck or a pile is a list of references into it, so that
  two slots holding the same object are two equal references.
\<close>

type_synonym ref = nat

type_synonym store = "Card list"

text \<open>
  The log strings are f-strings over a fixed template each; an entry is modelled by its
  template and the values interpolated into it.
\<close>

datatype log_entry =
    LogVitalityCost int
  | LogSpiritCost int
  | LogDamage int int bool int
  | LogSpirit int int
  | LogFocus int int
  | LogMood int int bool
  | LogPlayCount int
  | LogMoodDecaySkipped
  | LogMoodDecay int int
  | LogDrew3
  | LogRoundEnd int

text \<open>
  \<^verbatim>\<open>GameState\<close>. The dictionary \<^verbatim>\<open>buffs\<close> is created with exactly three keys (remaining
  plays, focus, mood) and \<^verbatim>\<open>new_buffs\<close> with one (mood); no key is ever added or removed,
  so \<^verbatim>\<open>buffs.get(k, 0)\<close> and \<^verbatim>\<open>buffs[k]\<close> agree and each key is a field here.
  \<open>defense\<close> is the attribute that \<^verbatim>\<open>reset_for_new_round\<close> creates.
\<close>

record GameState =
  deck :: "ref list"
  num_rounds :: int
  target_score :: int
  max_hand_size :: int
  current_round :: int
  score :: int
  spirit :: int
  vitality :: int
  current_phase :: Phase
  hand :: "ref list"
  draw_pile :: "ref list"
  discard_pile :: "ref list"
  exhaust_pile :: "ref list"
  buff_play_count :: int
  buff_focus :: int
  buff_mood :: int
  new_buff_mood :: bool
  game_log :: "log_entry list"
  is_first_shuffle :: bool
  defense :: "int option"

section \<open>Card effect engine\<close>

text \<open>\<^verbatim>\<open>Card.apply_cost\<close>: returns the updated state and the log entries.\<close>

definition apply_cost :: "Card \<Rightarrow> GameState \<Rightarrow> GameState \<times> log_entry list" where
  "apply_cost c s =
     (let remaining_cost = cost c in
      if bypass_spirit c then
        (s\<lparr>vitality := vitality s - remaining_cost\<rparr>, [LogVitalityCost remaining_cost])
      else
        let (s1, remaining1, log1) =
              (if spirit s > 0 then
                 let spirit_reduction = min (spirit s) remaining_cost in
                 (s\<lparr>spirit := spirit s - spirit_reduction\<rparr>,
                  remaining_cost - spirit_reduction,
                  [LogSpiritCost spirit_reduction])
               else (s, remaining_cost, []))
        in if remaining1 > 0 then
             (s1\<lparr>vitality := vitality s1 - remaining1\<rparr>, log1 @ [LogVitalityCost remaining1])
           else (s1, log1))"

text \<open>
  \<^verbatim>\<open>math.floor(base_damage * 1.5)\<close> multiplies an integer by a float: the integer is
  converted to a double, the product is a double, and the floor of that double is taken.
  A double carries 53 significant bits, and each of the two steps rounds to the nearest
  double, a tie to the one with an even last bit. The conversion raises OverflowError when
  the rounded integer is not below \<open>2^1024\<close>; a product not below \<open>2^1024\<close> is infinite, and
  \<^verbatim>\<open>math.floor\<close> raises OverflowError on it.
\<close>

text \<open>\<^verbatim>\<open>int.bit_length\<close>\<close>

fun bit_length :: "nat \<Rightarrow> nat" where
  "bit_length n = (if n = 0 then 0 else Suc (bit_length (n div 2)))"

declare bit_length.simps [simp del]

text \<open>The quotient of \<open>m\<close> by \<open>d > 0\<close>, rounded to the nearest integer, a tie to the even one.\<close>

definition round_half_even :: "int \<Rightarrow> int \<Rightarrow> int" where
  "round_half_even m d =
     (let q = m div d; r = m mod d in
      if 2 * r < d then q
      else if d < 2 * r then q + 1
      else if even q then q else q + 1)"

text \<open>
  The integer \<open>m\<close> rounded to 53 significant bits. The double nearest to the integer \<open>m\<close> has
  the value \<open>round53 m\<close>, and the double nearest to the half-integer \<open>m / 2\<close> has the value
  \<open>round53 m / 2\<close> (for \<open>\<bar>m\<bar> < 2^53\<close> it is \<open>m / 2\<close> itself), both before the range check.
\<close>

definition round53 :: "int \<Rightarrow> int" where
  "round53 m =
     (let k = bit_length (nat \<bar>m\<bar>) - 53 in round_half_even m (2 ^ k) * 2 ^ k)"

definition floor_mul_1_5 :: "int \<Rightarrow> error + int" where
  "floor_mul_1_5 base_damage =
     (let b = round53 base_damage in
      if 2 ^ 1024 \<le> \<bar>b\<bar> then Inl OverflowError
      else
        let twice_product = round53 (3 * b) in
        if 2 ^ 1025 \<le> \<bar>twice_product\<bar> then Inl OverflowError
        else Inr (twice_product div 2))"

text \<open>
  One iteration of the loop over \<^verbatim>\<open>self.effects\<close> in \<^verbatim>\<open>Card.apply_effects\<close>. An
  exception leaves the loop and the method.
\<close>

fun apply_effect ::
  "Effect \<Rightarrow> GameState \<times> log_entry list \<Rightarrow> error + GameState \<times> log_entry list" where
  "apply_effect effect (s, log_entries) =
     (if eff_type effect = DAMAGE then
        let focus_bonus = buff_focus s;
            base_damage = eff_value effect + focus_bonus;
            mood_bonus = buff_mood s
        in case (if mood_bonus > 0 then floor_mul_1_5 base_damage else Inr base_damage) of
             Inl e \<Rightarrow> Inl e
           | Inr actual_damage \<Rightarrow>
               Inr (s\<lparr>score := score s + actual_damage\<rparr>,
                    log_entries @
                      [LogDamage (eff_value effect) focus_bonus (mood_bonus > 0) actual_damage])
      else if eff_type effect = SPIRIT then
        let actual_spirit = eff_value effect in
        Inr (s\<lparr>spirit := spirit s + actual_spirit\<rparr>,
             log_entries @ [LogSpirit actual_spirit (spirit s + actual_spirit)])
      else if eff_type effect = FOCUS then
        let current_focus = buff_focus s in
        Inr (s\<lparr>buff_focus := current_focus + eff_value effect\<rparr>,
             log_entries @ [LogFocus (eff_value effect) (current_focus + eff_value effect)])
      else if eff_type effect = MOOD then
        let current_mood = buff_mood s;
            was_zero = (current_mood = 0);
            s1 = s\<lparr>buff_mood := current_mood + eff_value effect\<rparr>
        in if was_zero \<and> buff_mood s1 > 0 then
             Inr (s1\<lparr>new_buff_mood := True\<rparr>,
                  log_entries @ [LogMood (eff_value effect) (buff_mood s1) True])
           else Inr (s1, log_entries @ [LogMood (eff_value effect) (buff_mood s1) False])
      else if eff_type effect = PLAY_COUNT then
        Inr (s\<lparr>buff_play_count := buff_play_count s + eff_value effect\<rparr>,
             log_entries @ [LogPlayCount (eff_value effect)])
      else Inr (s, log_entries))"

text \<open>The loop over \<^verbatim>\<open>self.effects\<close>, in the declared order.\<close>

fun apply_effects_loop ::
  "Effect list \<Rightarrow> GameState \<times> log_entry list \<Rightarrow> error + GameState \<times> log_entry list" where
  "apply_effects_loop [] p = Inr p"
| "apply_effects_loop (effect # rest) p =
     (case apply_effect effect p of
        Inl e \<Rightarrow> Inl e
      | Inr p' \<Rightarrow> apply_effects_loop rest p')"

text \<open>\<^verbatim>\<open>Card.apply_effects\<close>: the cost first, then the effects.\<close>

definition apply_effects :: "Card \<Rightarrow> GameState \<Rightarrow> error + GameState \<times> log_entry list" where
  "apply_effects c s = apply_effects_loop (effects c) (apply_cost c s)"

text \<open>The fields that \<^verbatim>\<open>GameState.__init__\<close> sets before it builds the draw pile.\<close>

definition GameState_fields :: "ref list \<Rightarrow> int \<Rightarrow> int \<Rightarrow> int \<Rightarrow> int \<Rightarrow> GameState" where
  "GameState_fields dk rounds target max_hand starting_vitality =
     \<lparr>deck = dk, num_rounds = rounds, target_score = target, max_hand_size = max_hand,
      current_round = 1, score = 0, spirit = 0, vitality = starting_vitality,
      current_phase = TURN_START, hand = [], draw_pile = [], discard_pile = [],
      exhaust_pile = [], buff_play_count = 1, buff_focus = 0, buff_mood = 0,
      new_buff_mood = False, game_log = [], is_first_shuffle = True, defense = None\<rparr>"

section \<open>Randomness\<close>

text \<open>
  The generator of Python's \<^verbatim>\<open>random\<close> module is a library, a parameter of the model:
  \<open>uniform g k\<close> is what the \<open>k\<close>-th call to the generator returns when that call is
  \<^verbatim>\<open>random.random()\<close> (a float in \<open>[0, 1)\<close>), and \<open>below g k n\<close> what it returns when
  that call draws an integer below \<open>n\<close> (reduced modulo \<open>n\<close>, so that it is below \<open>n\<close>).
  \<open>calls\<close> counts the calls made so far.
\<close>

record rng =
  uniform :: "nat \<Rightarrow> real"
  below :: "nat \<Rightarrow> nat \<Rightarrow> nat"
  calls :: nat

definition random_random :: "rng \<Rightarrow> real \<times> rng" where
  "random_random g = (uniform g (calls g), g\<lparr>calls := Suc (calls g)\<rparr>)"

definition randbelow :: "nat \<Rightarrow> rng \<Rightarrow> nat \<times> rng" where
  "randbelow n g = (below g (calls g) n mod n, g\<lparr>calls := Suc (calls g)\<rparr>)"

text \<open>
  \<^verbatim>\<open>random.shuffle(x)\<close>, as the library does it:
  \<^verbatim>\<open>for i in reversed(range(1, len(x))): j = randbelow(i + 1); x[i], x[j] = x[j], x[i]\<close>.
\<close>

fun shuffle_loop :: "nat \<Rightarrow> 'a list \<Rightarrow> rng \<Rightarrow> 'a list \<times> rng" where
  "shuffle_loop 0 x g = (x, g)"
| "shuffle_loop (Suc i) x g =
     (let (j, g1) = randbelow (Suc i + 1) g in
      shuffle_loop i (x[Suc i := x ! j, j := x ! Suc i]) g1)"

definition random_shuffle :: "'a list \<Rightarrow> rng \<Rightarrow> 'a list \<times> rng" where
  "random_shuffle x g = shuffle_loop (length x - 1) x g"

text \<open>\<^verbatim>\<open>random.choice(seq)\<close> on a non-empty sequence: \<^verbatim>\<open>seq[randbelow(len(seq))]\<close>.\<close>

definition random_choice :: "'a list \<Rightarrow> rng \<Rightarrow> 'a \<times> rng" where
  "random_choice seq g = (let (j, g1) = randbelow (length seq) g in (seq ! j, g1))"

section \<open>Deck manager\<close>

text \<open>
  \<^verbatim>\<open>list.sort(key=..., reverse=True)\<close>: descending by key, elements with equal keys in
  their original order.
\<close>

definition sort_reverse :: "('a \<Rightarrow> real) \<Rightarrow> 'a list \<Rightarrow> 'a list" where
  "sort_reverse key xs = sort_key (\<lambda>x. - key x) xs"

text \<open>The two loops of \<^verbatim>\<open>_initialize_draw_pile\<close> that write to the card objects.\<close>

fun assign_shuffle_random :: "ref list \<Rightarrow> store \<times> rng \<Rightarrow> store \<times> rng" where
  "assign_shuffle_random [] (h, g) = (h, g)"
| "assign_shuffle_random (c # rest) (h, g) =
     (let (u, g1) = random_random g in
      assign_shuffle_random rest (h[c := (h ! c)\<lparr>shuffle_random := u\<rparr>], g1))"

fun reset_shuffle_priority :: "ref list \<Rightarrow> store \<Rightarrow> store" where
  "reset_shuffle_priority [] h = h"
| "reset_shuffle_priority (c # rest) h =
     reset_shuffle_priority rest (h[c := (h ! c)\<lparr>shuffle_priority := 0\<rparr>])"

text \<open>\<^verbatim>\<open>GameState._initialize_draw_pile\<close>\<close>

definition initialize_draw_pile :: "GameState \<times> store \<times> rng \<Rightarrow> GameState \<times> store \<times> rng" where
  "initialize_draw_pile = (\<lambda>(s, h, g).
     let pile = deck s;
         (h1, g1) = assign_shuffle_random pile (h, g)
     in if is_first_shuffle s then
          let pile1 = sort_reverse (\<lambda>x. shuffle_random (h1 ! x) + shuffle_priority (h1 ! x)) pile;
              h2 = reset_shuffle_priority pile1 h1
          in (s\<lparr>draw_pile := pile1, is_first_shuffle := False\<rparr>, h2, g1)
        else
          (s\<lparr>draw_pile := sort_reverse (\<lambda>x. shuffle_random (h1 ! x)) pile\<rparr>, h1, g1))"

text \<open>\<^verbatim>\<open>GameState.__init__\<close>\<close>

definition GameState_init ::
  "ref list \<Rightarrow> int \<Rightarrow> int \<Rightarrow> int \<Rightarrow> int \<Rightarrow> store \<times> rng \<Rightarrow> GameState \<times> store \<times> rng" where
  "GameState_init dk rounds target max_hand starting_vitality = (\<lambda>(h, g).
     initialize_draw_pile (GameState_fields dk rounds target max_hand starting_vitality, h, g))"

text \<open>
  One iteration of the loop of \<^verbatim>\<open>GameState.draw_cards\<close>; \<open>None\<close> is the \<^verbatim>\<open>break\<close>.
  \<^verbatim>\<open>pop()\<close> takes the last element of the list, which is not empty where it is called.
\<close>

definition draw_step :: "GameState \<times> rng \<Rightarrow> (GameState \<times> rng) option" where
  "draw_step = (\<lambda>(s, g).
     if length (draw_pile s) = 0 \<and> length (discard_pile s) = 0 then None
     else
       let (s1, g1) =
             (if length (draw_pile s) = 0 then
                let (pile, g') = random_shuffle (discard_pile s) g in
                (s\<lparr>draw_pile := pile, discard_pile := []\<rparr>, g')
              else (s, g))
       in if int (length (hand s1)) < max_hand_size s1 then
            Some (s1\<lparr>draw_pile := butlast (draw_pile s1),
                     hand := hand s1 @ [last (draw_pile s1)]\<rparr>, g1)
          else Some (s1, g1))"

text \<open>\<^verbatim>\<open>GameState.draw_cards(count)\<close>, for \<^verbatim>\<open>range(count)\<close> of \<open>count\<close> iterations.\<close>

fun draw_cards :: "nat \<Rightarrow> GameState \<times> rng \<Rightarrow> GameState \<times> rng" where
  "draw_cards 0 sg = sg"
| "draw_cards (Suc n) sg =
     (case draw_step sg of None \<Rightarrow> sg | Some sg' \<Rightarrow> draw_cards n sg')"

text \<open>\<^verbatim>\<open>GameState.reset_for_new_round\<close>\<close>

definition reset_for_new_round :: "GameState \<Rightarrow> GameState" where
  "reset_for_new_round s =
     s\<lparr>discard_pile := discard_pile s @ hand s, hand := [], buff_focus := 0, defense := Some 0\<rparr>"

text \<open>The mood decay at the head of \<^verbatim>\<open>GameState.handle_phase_start\<close>.\<close>

definition mood_decay :: "GameState \<Rightarrow> GameState \<times> log_entry list" where
  "mood_decay s =
     (if buff_mood s > 0 then
        if new_buff_mood s then (s\<lparr>new_buff_mood := False\<rparr>, [LogMoodDecaySkipped])
        else (s\<lparr>buff_mood := buff_mood s - 1\<rparr>, [LogMoodDecay (buff_mood s) (buff_mood s - 1)])
      else (s, []))"

text \<open>\<^verbatim>\<open>GameState.handle_phase_start\<close>: the state, the generator and the returned log entries.\<close>

definition handle_phase_start :: "GameState \<times> rng \<Rightarrow> GameState \<times> rng \<times> log_entry list" where
  "handle_phase_start = (\<lambda>(s, g).
     let (s1, log_entries) = mood_decay s;
         s2 = s1\<lparr>buff_play_count := 1\<rparr>;
         (s3, g3) = draw_cards 3 (s2, g)
     in (s3, g3, log_entries @ [LogDrew3]))"

section \<open>Deck configuration\<close>

text \<open>
  The loop of \<^verbatim>\<open>create_base_deck\<close> over the card dictionaries. One \<^verbatim>\<open>Card\<close> object is
  constructed per dictionary (allocated at the end of the store), and the inner loop
  \<^verbatim>\<open>for _ in range(count): deck.append(card)\<close> appends that object \<open>count\<close> times.
  The trait literals of the source are the values of \<open>CardTrait\<close>.
\<close>

fun build_deck :: "CardData list \<Rightarrow> ref list \<times> store \<Rightarrow> error + ref list \<times> store" where
  "build_deck [] (dk, h) = Inr (dk, h)"
| "build_deck (card_data # rest) (dk, h) =
     (let count = (case c_count card_data of None \<Rightarrow> 1 | Some n \<Rightarrow> n);
          traits = (case c_traits card_data of None \<Rightarrow> [] | Some ts \<Rightarrow> ts);
          prio = (case c_shuffle_priority card_data of None \<Rightarrow> 0 | Some p \<Rightarrow> p)
      in case Card_init (c_name card_data) (c_effects card_data) (c_cost card_data)
                (CardTrait_value BYPASS_SPIRIT \<in> set traits) prio
                (CardTrait_value EXHAUST \<in> set traits) of
           Inl e \<Rightarrow> Inl e
         | Inr c \<Rightarrow> build_deck rest (dk @ replicate (nat count) (length h), h @ [c]))"

definition effect_dict :: "EffectType \<Rightarrow> int \<Rightarrow> EffectDict" where
  "effect_dict t v = \<lparr>d_type = EffectType_value t, d_value = v, d_bypass_spirit = None\<rparr>"

text \<open>
  The list \<^verbatim>\<open>CARDS\<close> of \<^verbatim>\<open>create_base_deck\<close>. The card names are Chinese words, given by
  their UTF-8 bytes: attack, defence, focus, double strike, calm will 1, test, sacrificing
  strike, burst.
\<close>

definition CARDS :: "CardData list" where
  "CARDS =
    [\<lparr>c_name = [CHR 0xE8, CHR 0xBF, CHR 0x9B, CHR 0xE6, CHR 0x94, CHR 0xBB],
      c_effects = [effect_dict DAMAGE 9], c_cost = 4, c_count = Some 2,
      c_traits = None, c_shuffle_priority = None\<rparr>,
     \<lparr>c_name = [CHR 0xE9, CHR 0x98, CHR 0xB2, CHR 0xE5, CHR 0xBE, CHR 0xA1],
      c_effects = [effect_dict SPIRIT 4], c_cost = 0, c_count = Some 2,
      c_traits = None, c_shuffle_priority = None\<rparr>,
     \<lparr>c_name = [CHR 0xE9, CHR 0x9B, CHR 0x86, CHR 0xE4, CHR 0xB8, CHR 0xAD],
      c_effects = [effect_dict SPIRIT 2, effect_dict FOCUS 2], c_cost = 1, c_count = Some 2,
      c_traits = None, c_shuffle_priority = None\<rparr>,
     \<lparr>c_name = [CHR 0xE5, CHR 0x8F, CHR 0x8C, CHR 0xE5, CHR 0x87, CHR 0xBB],
      c_effects = [effect_dict DAMAGE 9, effect_dict DAMAGE 9], c_cost = 7, c_count = None,
      c_traits = Some [CardTrait_value EXHAUST], c_shuffle_priority = None\<rparr>,
     \<lparr>c_name = [CHR 0xE6, CHR 0xB2, CHR 0x89, CHR 0xE9, CHR 0x9D, CHR 0x99,
                CHR 0xE6, CHR 0x84, CHR 0x8F, CHR 0xE5, CHR 0xBF, CHR 0x97, CHR 0x31],
      c_effects = [effect_dict FOCUS 4, effect_dict MOOD 3], c_cost = 2, c_count = None,
      c_traits = Some [CardTrait_value EXHAUST], c_shuffle_priority = Some (- 1)\<rparr>,
     \<lparr>c_name = [CHR 0xE6, CHR 0xB5, CHR 0x8B, CHR 0xE8, CHR 0xAF, CHR 0x95],
      c_effects = [effect_dict DAMAGE 9, effect_dict FOCUS 2, effect_dict DAMAGE 9],
      c_cost = 4, c_count = None,
      c_traits = Some [CardTrait_value EXHAUST], c_shuffle_priority = None\<rparr>,
     \<lparr>c_name = [CHR 0xE8, CHR 0x88, CHR 0x8D, CHR 0xE8, CHR 0xBA, CHR 0xAB,
                CHR 0xE4, CHR 0xB8, CHR 0x80, CHR 0xE5, CHR 0x87, CHR 0xBB],
      c_effects = [effect_dict DAMAGE 15], c_cost = 6, c_count = None,
      c_traits = Some [CardTrait_value EXHAUST, CardTrait_value BYPASS_SPIRIT],
      c_shuffle_priority = None\<rparr>,
     \<lparr>c_name = [CHR 0xE7, CHR 0x88, CHR 0x86, CHR 0xE5, CHR 0x8F, CHR 0x91],
      c_effects = [effect_dict DAMAGE 20], c_cost = 8, c_count = None,
      c_traits = Some [CardTrait_value EXHAUST, CardTrait_value BYPASS_SPIRIT],
      c_shuffle_priority = None\<rparr>]"

text \<open>\<^verbatim>\<open>create_base_deck\<close>, run on a store \<open>h\<close>.\<close>

definition create_base_deck :: "store \<Rightarrow> error + ref list \<times> store" where
  "create_base_deck h = build_deck CARDS ([], h)"

section \<open>Game state machine (interactive game)\<close>

text \<open>
  Standard input is a list of typed lines: the letter q, the letter p, an integer, or
  anything else. \<^verbatim>\<open>Game.get_valid_input\<close> reads lines until one is acceptable;
  \<^verbatim>\<open>input()\<close> raises EOFError when no line is left, and q ends the process.
\<close>

datatype entry = Key_q | Key_p | Number int | Other

fun get_valid_input :: "int \<Rightarrow> int \<Rightarrow> entry list \<Rightarrow> error + int \<times> entry list" where
  "get_valid_input min_val max_val [] = Inl EOFError"
| "get_valid_input min_val max_val (Key_q # rest) = Inl SystemExit"
| "get_valid_input min_val max_val (Key_p # rest) = Inr (0, rest)"
| "get_valid_input min_val max_val (Number v # rest) =
     (if min_val \<le> v \<and> v \<le> max_val then Inr (v, rest)
      else get_valid_input min_val max_val rest)"
| "get_valid_input min_val max_val (Other # rest) = get_valid_input min_val max_val rest"

text \<open>
  \<^verbatim>\<open>Game.display_hand\<close> prints the cards of the hand. For a damage effect it prints the
  damage that the effect would deal now, computed as \<^verbatim>\<open>apply_effects\<close> computes it, so it
  raises where that product raises. The result is the exception, or \<open>None\<close> when the hand
  was printed.
\<close>

fun display_effects :: "GameState \<Rightarrow> Effect list \<Rightarrow> error option" where
  "display_effects s [] = None"
| "display_effects s (effect # rest) =
     (if eff_type effect = DAMAGE \<and> buff_mood s > 0 then
        case floor_mul_1_5 (eff_value effect + buff_focus s) of
          Inl e \<Rightarrow> Some e
        | Inr actual_damage \<Rightarrow> display_effects s rest
      else display_effects s rest)"

fun display_cards :: "GameState \<Rightarrow> Card list \<Rightarrow> error option" where
  "display_cards s [] = None"
| "display_cards s (c # rest) =
     (case display_effects s (effects c) of
        Some e \<Rightarrow> Some e
      | None \<Rightarrow> display_cards s rest)"

definition display_hand :: "store \<Rightarrow> GameState \<Rightarrow> error option" where
  "display_hand h s = display_cards s (map (\<lambda>c. h ! c) (hand s))"

text \<open>
  The body of the loop of \<^verbatim>\<open>Game.play_turn\<close> once a card is selected: resolve the card,
  extend the log, remove the card from the hand, move it to the exhaust pile or to the
  discard pile, and take one play away. \<^verbatim>\<open>list.remove\<close> removes the first slot that
  holds the object.
\<close>

definition play_card :: "store \<Rightarrow> ref \<Rightarrow> GameState \<Rightarrow> error + GameState" where
  "play_card h selected_card s =
     (case apply_effects (h ! selected_card) s of
        Inl e \<Rightarrow> Inl e
      | Inr (s1, log_entries) \<Rightarrow>
          let s2 = s1\<lparr>game_log := game_log s1 @ log_entries\<rparr>;
              s3 = s2\<lparr>hand := remove1 selected_card (hand s2)\<rparr>;
              s4 = (if exhaust (h ! selected_card)
                    then s3\<lparr>exhaust_pile := exhaust_pile s3 @ [selected_card]\<rparr>
                    else s3\<lparr>discard_pile := discard_pile s3 @ [selected_card]\<rparr>)
          in Inr (s4\<lparr>buff_play_count := buff_play_count s4 - 1\<rparr>))"

lemma apply_cost_frame:
  "hand (fst (apply_cost c s)) = hand s"
  "num_rounds (fst (apply_cost c s)) = num_rounds s"
  "current_round (fst (apply_cost c s)) = current_round s"
  by (simp_all add: apply_cost_def Let_def split: prod.splits)

lemma apply_effect_frame:
  assumes "apply_effect e p = Inr p'"
  shows "hand (fst p') = hand (fst p)"
    and "num_rounds (fst p') = num_rounds (fst p)"
    and "current_round (fst p') = current_round (fst p)"
  using assms by (cases p; auto simp: Let_def split: if_splits sum.splits)+

lemma apply_effects_loop_frame:
  assumes "apply_effects_loop es p = Inr p'"
  shows "hand (fst p') = hand (fst p)"
    and "num_rounds (fst p') = num_rounds (fst p)"
    and "current_round (fst p') = current_round (fst p)"
  using assms
  by (induction es arbitrary: p; auto simp: apply_effect_frame split: sum.splits)+

lemma apply_effects_frame:
  assumes "apply_effects c s = Inr (s', l)"
  shows "hand s' = hand s"
    and "num_rounds s' = num_rounds s"
    and "current_round s' = current_round s"
  using apply_effects_loop_frame [OF assms [unfolded apply_effects_def]]
  by (simp_all add: apply_cost_frame)

lemma play_card_frame:
  assumes "play_card h r s = Inr s'"
  shows "hand s' = remove1 r (hand s)"
    and "num_rounds s' = num_rounds s"
    and "current_round s' = current_round s"
proof -
  from assms obtain s1 l where e: "apply_effects (h ! r) s = Inr (s1, l)"
    by (cases "apply_effects (h ! r) s") (auto simp: play_card_def)
  note f = apply_effects_frame [OF e]
  from assms e f show "hand s' = remove1 r (hand s)"
    by (auto simp: play_card_def Let_def split: if_splits)
  from assms e f show "num_rounds s' = num_rounds s"
    by (auto simp: play_card_def Let_def split: if_splits)
  from assms e f show "current_round s' = current_round s"
    by (auto simp: play_card_def Let_def split: if_splits)
qed

lemma get_valid_input_range:
  "get_valid_input lo hi inp = Inr (v, rest) \<Longrightarrow> v = 0 \<or> (lo \<le> v \<and> v \<le> hi)"
  by (induction lo hi inp rule: get_valid_input.induct) (auto split: if_splits)

text \<open>\<^verbatim>\<open>Game.play_turn\<close>\<close>

function play_turn :: "store \<Rightarrow> GameState \<times> entry list \<Rightarrow> error + GameState \<times> entry list" where
  "play_turn h (s, inp) =
     (if buff_play_count s > 0 \<and> hand s \<noteq> [] then
        case display_hand h s of
          Some e \<Rightarrow> Inl e
        | None \<Rightarrow>
            (case get_valid_input 1 (int (length (hand s))) inp of
               Inl e \<Rightarrow> Inl e
             | Inr (choice, inp') \<Rightarrow>
                 if choice = 0 then Inr (s, inp')
                 else
                   (case play_card h (hand s ! nat (choice - 1)) s of
                      Inl e \<Rightarrow> Inl e
                    | Inr s' \<Rightarrow> play_turn h (s', inp')))
      else Inr (s, inp))"
  by pat_completeness auto
termination
proof (relation "measure (\<lambda>(h, s, inp). length (hand s))")
  show "wf (measure (\<lambda>(h, s, inp). length (hand s)))" by simp
next
  fix h :: store and s s' :: GameState and inp inp' :: "entry list" and x2 and choice :: int
  assume go: "0 < buff_play_count s \<and> hand s \<noteq> []"
    and inp: "get_valid_input 1 (int (length (hand s))) inp = Inr x2"
    and x2: "(choice, inp') = x2"
    and nz: "choice \<noteq> 0"
    and pc: "play_card h (hand s ! nat (choice - 1)) s = Inr s'"
  from inp x2 have "get_valid_input 1 (int (length (hand s))) inp = Inr (choice, inp')" by simp
  from get_valid_input_range [OF this] nz
  have "1 \<le> choice" "choice \<le> int (length (hand s))" by auto
  then have "nat (choice - 1) < length (hand s)" by linarith
  then have "hand s ! nat (choice - 1) \<in> set (hand s)" by simp
  then have "length (remove1 (hand s ! nat (choice - 1)) (hand s)) < length (hand s)"
    by (simp add: length_remove1) (use go in \<open>cases "hand s"; simp\<close>)
  then show "((h, s', inp'), (h, s, inp)) \<in> measure (\<lambda>(h, s, inp). length (hand s))"
    by (simp add: play_card_frame(1) [OF pc])
qed

declare play_turn.simps [simp del]

text \<open>\<^verbatim>\<open>Game.handle_turn_start\<close> and \<^verbatim>\<open>Game.handle_turn_end\<close>\<close>

definition handle_turn_start :: "GameState \<times> rng \<Rightarrow> GameState \<times> rng" where
  "handle_turn_start = (\<lambda>(s, g).
     let (s1, g1, log_entries) = handle_phase_start (s, g) in
     (s1\<lparr>game_log := game_log s1 @ log_entries\<rparr>, g1))"

definition handle_turn_end :: "GameState \<Rightarrow> GameState" where
  "handle_turn_end s =
     (let s1 = reset_for_new_round s in
      s1\<lparr>game_log := game_log s1 @ [LogRoundEnd (current_round s1)]\<rparr>)"

text \<open>The condition of the main loop, of \<^verbatim>\<open>Game.start\<close> and of \<^verbatim>\<open>train\<close> alike.\<close>

definition running :: "GameState \<Rightarrow> bool" where
  "running s = (current_round s \<le> num_rounds s \<and> score s < target_score s \<and> vitality s > 0)"

text \<open>The body of the main loop of \<^verbatim>\<open>Game.start\<close>: one cycle of the three phases.\<close>

definition game_cycle ::
  "store \<Rightarrow> GameState \<times> rng \<times> entry list \<Rightarrow> error + GameState \<times> rng \<times> entry list" where
  "game_cycle h = (\<lambda>(s, g, inp).
     let (s1, g1) = handle_turn_start (s\<lparr>current_phase := TURN_START\<rparr>, g);
         s2 = s1\<lparr>current_phase := PLAYER_ACTION\<rparr>
     in case play_turn h (s2, inp) of
          Inl e \<Rightarrow> Inl e
        | Inr (s3, inp') \<Rightarrow>
            let s4 = handle_turn_end (s3\<lparr>current_phase := TURN_END\<rparr>) in
            Inr (s4\<lparr>current_round := current_round s4 + 1\<rparr>, g1, inp'))"

text \<open>None of the phases changes the round limit; only the end of a cycle moves the round.\<close>

lemma draw_step_frame:
  assumes "draw_step sg = Some sg'"
  shows "num_rounds (fst sg') = num_rounds (fst sg)"
    and "current_round (fst sg') = current_round (fst sg)"
  using assms
  by (cases sg; auto simp: draw_step_def Let_def split: if_splits prod.splits)+

lemma draw_cards_frame:
  "num_rounds (fst (draw_cards n sg)) = num_rounds (fst sg)"
  "current_round (fst (draw_cards n sg)) = current_round (fst sg)"
  by (induction n arbitrary: sg; simp add: draw_step_frame split: option.splits)+

lemma mood_decay_frame:
  "num_rounds (fst (mood_decay s)) = num_rounds s"
  "current_round (fst (mood_decay s)) = current_round s"
  by (simp_all add: mood_decay_def)

lemma handle_phase_start_frame:
  "num_rounds (fst (handle_phase_start (s, g))) = num_rounds s"
  "current_round (fst (handle_phase_start (s, g))) = current_round s"
proof -
  obtain s1 l where m: "mood_decay s = (s1, l)" by (cases "mood_decay s")
  obtain s3 g3 where d: "draw_cards 3 (s1\<lparr>buff_play_count := 1\<rparr>, g) = (s3, g3)"
    by (cases "draw_cards 3 (s1\<lparr>buff_play_count := 1\<rparr>, g)")
  from mood_decay_frame [of s] m
  have a: "num_rounds s1 = num_rounds s" "current_round s1 = current_round s" by simp_all
  from draw_cards_frame [of 3 "(s1\<lparr>buff_play_count := 1\<rparr>, g)"] d
  have b: "num_rounds s3 = num_rounds s1" "current_round s3 = current_round s1" by simp_all
  show "num_rounds (fst (handle_phase_start (s, g))) = num_rounds s"
    "current_round (fst (handle_phase_start (s, g))) = current_round s"
    using a b by (simp_all add: handle_phase_start_def m d)
qed

lemma handle_turn_start_frame:
  "num_rounds (fst (handle_turn_start (s, g))) = num_rounds s"
  "current_round (fst (handle_turn_start (s, g))) = current_round s"
  using handle_phase_start_frame [of s g]
  by (cases "handle_phase_start (s, g)"; simp add: handle_turn_start_def)+

lemma handle_turn_end_frame:
  "num_rounds (handle_turn_end s) = num_rounds s"
  "current_round (handle_turn_end s) = current_round s"
  by (simp_all add: handle_turn_end_def reset_for_new_round_def Let_def)

lemma play_turn_unfold:
  assumes "buff_play_count s > 0 \<and> hand s \<noteq> []"
    and "play_turn h (s, inp) = Inr (s', inp')"
  obtains (skip) rest where "display_hand h s = None"
      and "get_valid_input 1 (int (length (hand s))) inp = Inr (0, rest)"
      and "s' = s" and "inp' = rest"
    | (play) choice rest s1 where "display_hand h s = None"
      and "get_valid_input 1 (int (length (hand s))) inp = Inr (choice, rest)"
      and "choice \<noteq> 0"
      and "play_card h (hand s ! nat (choice - 1)) s = Inr s1"
      and "play_turn h (s1, rest) = Inr (s', inp')"
  using assms
  by (auto simp: play_turn.simps [of h s inp] split: option.splits sum.splits if_splits)

lemma play_turn_frame:
  "play_turn h (s, inp) = Inr (s', inp') \<Longrightarrow>
     num_rounds s' = num_rounds s \<and> current_round s' = current_round s"
proof (induction h "(s, inp)" arbitrary: s inp rule: play_turn.induct)
  case (1 h s inp)
  show ?case
  proof (cases "buff_play_count s > 0 \<and> hand s \<noteq> []")
    case False
    with "1.prems" show ?thesis by (simp add: play_turn.simps)
  next
    case go: True
    from go "1.prems" show ?thesis
    proof (cases rule: play_turn_unfold)
      case (skip rest)
      then show ?thesis by simp
    next
      case (play choice rest s1)
      from "1.hyps" [OF go play(1) play(2) refl play(3) play(4) play(5)]
        play_card_frame(2,3) [OF play(4)]
      show ?thesis by simp
    qed
  qed
qed

lemma game_cycle_unfold:
  assumes "handle_turn_start (s\<lparr>current_phase := TURN_START\<rparr>, g) = (s1, g1)"
  shows "game_cycle h (s, g, inp) =
     (case play_turn h (s1\<lparr>current_phase := PLAYER_ACTION\<rparr>, inp) of
        Inl e \<Rightarrow> Inl e
      | Inr (s3, inp') \<Rightarrow>
          Inr ((handle_turn_end (s3\<lparr>current_phase := TURN_END\<rparr>))
                 \<lparr>current_round := current_round (handle_turn_end (s3\<lparr>current_phase := TURN_END\<rparr>)) + 1\<rparr>,
               g1, inp'))"
  by (simp add: game_cycle_def assms Let_def split: sum.splits prod.splits)

lemma game_cycle_frame:
  assumes "game_cycle h (s, g, inp) = Inr (s', g', inp')"
  shows "num_rounds s' = num_rounds s \<and> current_round s' = current_round s + 1"
proof -
  obtain s1 g1 where t: "handle_turn_start (s\<lparr>current_phase := TURN_START\<rparr>, g) = (s1, g1)"
    by (cases "handle_turn_start (s\<lparr>current_phase := TURN_START\<rparr>, g)")
  from handle_turn_start_frame [of "s\<lparr>current_phase := TURN_START\<rparr>" g] t
  have a: "num_rounds s1 = num_rounds s" "current_round s1 = current_round s" by simp_all
  show ?thesis
  proof (cases "play_turn h (s1\<lparr>current_phase := PLAYER_ACTION\<rparr>, inp)")
    case (Inl e)
    with assms show ?thesis by (simp add: game_cycle_unfold [OF t])
  next
    case (Inr y)
    obtain s3 rest where y: "y = (s3, rest)" by (cases y)
    from play_turn_frame [OF Inr [unfolded y]] a
    have b: "num_rounds s3 = num_rounds s" "current_round s3 = current_round s" by simp_all
    from assms have "s' = (handle_turn_end (s3\<lparr>current_phase := TURN_END\<rparr>))
                 \<lparr>current_round := current_round (handle_turn_end (s3\<lparr>current_phase := TURN_END\<rparr>)) + 1\<rparr>"
      by (simp add: game_cycle_unfold [OF t] Inr y)
    then show ?thesis using b by (simp add: handle_turn_end_frame)
  qed
qed

text \<open>\<^verbatim>\<open>Game.start\<close>: the main loop.\<close>

function start ::
  "store \<Rightarrow> GameState \<times> rng \<times> entry list \<Rightarrow> error + GameState \<times> rng \<times> entry list" where
  "start h (s, g, inp) =
     (if running s then
        case game_cycle h (s, g, inp) of
          Inl e \<Rightarrow> Inl e
        | Inr x \<Rightarrow> start h x
      else Inr (s, g, inp))"
  by pat_completeness auto
termination
proof (relation "measure (\<lambda>(h, s, g, inp). nat (num_rounds s + 1 - current_round s))")
  show "wf (measure (\<lambda>(h, s, g, inp). nat (num_rounds s + 1 - current_round s)))" by simp
next
  fix h :: store and s :: GameState and g :: rng and inp :: "entry list" and x
  assume run: "running s" and c: "game_cycle h (s, g, inp) = Inr x"
  obtain s' g' inp' where x: "x = (s', g', inp')" by (cases x)
  from game_cycle_frame [OF c [unfolded x]] run
  show "((h, x), (h, s, g, inp)) \<in> measure (\<lambda>(h, s, g, inp). nat (num_rounds s + 1 - current_round s))"
    by (simp add: x running_def)
qed

declare start.simps [simp del]

section \<open>Reinforcement-learning trainer (\<^verbatim>\<open>card_recommendation.py\<close>)\<close>

text \<open>
  \<^verbatim>\<open>get_state_key\<close> renders six integers into one string, with fixed separators between
  them; the rendering is injective, and the key is modelled by the six integers: round,
  score, spirit, vitality, focus, mood.
\<close>

type_synonym state_key = "int \<times> int \<times> int \<times> int \<times> int \<times> int"

definition get_state_key :: "GameState \<Rightarrow> state_key" where
  "get_state_key s =
     (current_round s, score s, spirit s, vitality s, buff_focus s, buff_mood s)"

text \<open>
  A row of the Q-table is a dictionary from card names to values, modelled as an
  association list in insertion order. The values and the rates are Python floats; the
  model computes with reals, so the rounding and the range of the float operations are
  not part of it.
\<close>

type_synonym q_row = "(string \<times> real) list"

text \<open>The dictionary comprehension \<^verbatim>\<open>{card.name: 0 for card in cards}\<close>.\<close>

definition row_init :: "string list \<Rightarrow> q_row" where
  "row_init names = fold (\<lambda>n row. AList.update n 0 row) names []"

text \<open>\<^verbatim>\<open>row.get(n, 0)\<close>\<close>

definition row_get :: "q_row \<Rightarrow> string \<Rightarrow> real" where
  "row_get row n = (case map_of row n of None \<Rightarrow> 0 | Some v \<Rightarrow> v)"

text \<open>\<^verbatim>\<open>max(values)\<close>: ValueError on an empty sequence.\<close>

fun py_max :: "real list \<Rightarrow> error + real" where
  "py_max [] = Inl ValueError"
| "py_max (v # vs) = Inr (fold max vs v)"

text \<open>
  \<^verbatim>\<open>max(xs, key=f)\<close> on the non-empty list \<open>x # xs\<close>: the first element whose key is
  maximal.
\<close>

definition py_max_key :: "('a \<Rightarrow> real) \<Rightarrow> 'a \<Rightarrow> 'a list \<Rightarrow> 'a" where
  "py_max_key f x xs = fold (\<lambda>y best. if f y > f best then y else best) xs x"

record Agent =
  agent_deck :: "ref list"
  q_table :: "state_key \<rightharpoonup> q_row"
  learning_rate :: real
  discount_factor :: real
  exploration_rate :: real

text \<open>\<^verbatim>\<open>CardRecommendationAgent.__init__\<close>\<close>

definition Agent_init :: "ref list \<Rightarrow> real \<Rightarrow> real \<Rightarrow> real \<Rightarrow> Agent" where
  "Agent_init dk lr df er =
     \<lparr>agent_deck = dk, q_table = Map.empty, learning_rate = lr, discount_factor = df,
      exploration_rate = er\<rparr>"

text \<open>
  \<^verbatim>\<open>if key not in table: table[key] = {card.name: 0 for card in cards}\<close>, returning the
  table and the row that it holds for the key afterwards.
\<close>

definition ensure_row ::
  "(state_key \<rightharpoonup> q_row) \<Rightarrow> state_key \<Rightarrow> string list \<Rightarrow> (state_key \<rightharpoonup> q_row) \<times> q_row" where
  "ensure_row table key names =
     (case table key of
        None \<Rightarrow> (table(key \<mapsto> row_init names), row_init names)
      | Some row \<Rightarrow> (table, row))"

text \<open>\<^verbatim>\<open>choose_card\<close>: the chosen card (or None), the agent and the generator.\<close>

definition choose_card :: "store \<Rightarrow> Agent \<Rightarrow> GameState \<Rightarrow> rng \<Rightarrow> ref option \<times> Agent \<times> rng" where
  "choose_card h a s g =
     (if hand s = [] then (None, a, g)
      else
        let state_key = get_state_key s;
            (u, g1) = random_random g
        in if u < exploration_rate a then
             let (c, g2) = random_choice (hand s) g1 in (Some c, a, g2)
           else
             let (table, q_values) =
                   ensure_row (q_table a) state_key (map (\<lambda>c. name (h ! c)) (hand s));
                 best_card =
                   py_max_key (\<lambda>c. row_get q_values (name (h ! c))) (hd (hand s)) (tl (hand s))
             in (Some best_card, a\<lparr>q_table := table\<rparr>, g1))"

text \<open>
  \<^verbatim>\<open>update_q_table\<close>; \<open>card_name\<close> is \<^verbatim>\<open>card.name\<close>. Both rows are read after both
  initialisations; the second initialisation never touches the row of \<open>prev_state\<close>,
  which exists by then.
\<close>

definition update_q_table ::
  "store \<Rightarrow> Agent \<Rightarrow> state_key \<Rightarrow> string \<Rightarrow> real \<Rightarrow> state_key \<Rightarrow> error + Agent" where
  "update_q_table h a prev_state card_name reward curr_state =
     (let deck_names = map (\<lambda>c. name (h ! c)) (agent_deck a);
          (table1, prev_row) = ensure_row (q_table a) prev_state deck_names;
          (table2, curr_row) = ensure_row table1 curr_state deck_names;
          current_q = row_get prev_row card_name
      in case py_max (map snd curr_row) of
           Inl e \<Rightarrow> Inl e
         | Inr max_next_q \<Rightarrow>
             let new_q = current_q + learning_rate a *
                           (reward + discount_factor a * max_next_q - current_q)
             in Inr (a\<lparr>q_table := table2(prev_state \<mapsto> AList.update card_name new_q prev_row)\<rparr>))"


text \<open>
  The body of the play loop of \<^verbatim>\<open>train\<close> once a card is selected. The loop variables are
  the agent, the game state, the generator, \<^verbatim>\<open>prev_state_key\<close>, \<^verbatim>\<open>episode_actions\<close> and
  \<^verbatim>\<open>episode_rewards\<close>. The log entries that \<^verbatim>\<open>apply_effects\<close> returns are dropped.
\<close>

type_synonym train_vars = "Agent \<times> GameState \<times> rng \<times> state_key \<times> string list \<times> int list"

definition train_play :: "store \<Rightarrow> ref \<Rightarrow> train_vars \<Rightarrow> error + train_vars" where
  "train_play h selected_card = (\<lambda>(a, s, g, prev_state_key, episode_actions, episode_rewards).
     let actions = episode_actions @ [name (h ! selected_card)] in
     case apply_effects (h ! selected_card) s of
       Inl e \<Rightarrow> Inl e
     | Inr (s1, log_entries) \<Rightarrow>
         let curr_state_key = get_state_key s1;
             reward = score s1;
             rewards = episode_rewards @ [reward]
         in case update_q_table h a prev_state_key (name (h ! selected_card))
                   (real_of_int reward) curr_state_key of
              Inl e \<Rightarrow> Inl e
            | Inr a1 \<Rightarrow>
                let s2 = s1\<lparr>hand := remove1 selected_card (hand s1)\<rparr>;
                    s3 = s2\<lparr>discard_pile := discard_pile s2 @ [selected_card]\<rparr>;
                    s4 = s3\<lparr>buff_play_count := buff_play_count s3 - 1\<rparr>
                in Inr (a1, s4, g, curr_state_key, actions, rewards))"

lemma py_max_key_in: "py_max_key f x xs \<in> insert x (set xs)"
  unfolding py_max_key_def by (induction xs arbitrary: x) auto

lemma random_choice_in: "xs \<noteq> [] \<Longrightarrow> fst (random_choice xs g) \<in> set xs"
  by (simp add: random_choice_def randbelow_def)

lemma choose_card_in_hand:
  assumes "choose_card h a s g = (Some c, a', g')"
  shows "c \<in> set (hand s)"
proof (cases "hand s")
  case Nil
  with assms show ?thesis by (simp add: choose_card_def)
next
  case (Cons x xs)
  obtain u g1 where r: "random_random g = (u, g1)" by (cases "random_random g")
  show ?thesis
  proof (cases "u < exploration_rate a")
    case True
    obtain c2 g2 where rc: "random_choice (hand s) g1 = (c2, g2)"
      by (cases "random_choice (hand s) g1")
    from assms Cons r True rc have "c = c2" by (simp add: choose_card_def)
    moreover from random_choice_in [of "hand s" g1] rc Cons have "c2 \<in> set (hand s)" by simp
    ultimately show ?thesis by simp
  next
    case False
    obtain table q_values where
      e: "ensure_row (q_table a) (get_state_key s) (map (\<lambda>c. name (h ! c)) (hand s)) = (table, q_values)"
      by (cases "ensure_row (q_table a) (get_state_key s) (map (\<lambda>c. name (h ! c)) (hand s))")
    from assms Cons r False e
    have "c = py_max_key (\<lambda>c. row_get q_values (name (h ! c))) x xs"
      by (simp add: choose_card_def Let_def)
    with py_max_key_in [of "\<lambda>c. row_get q_values (name (h ! c))" x xs] Cons
    show ?thesis by simp
  qed
qed

lemma train_play_frame:
  assumes "train_play h c (a, s, g, k, acts, rews) = Inr (a', s', g', k', acts', rews')"
  shows "hand s' = remove1 c (hand s)"
    and "num_rounds s' = num_rounds s"
    and "current_round s' = current_round s"
proof -
  from assms obtain s1 l where e: "apply_effects (h ! c) s = Inr (s1, l)"
    by (cases "apply_effects (h ! c) s") (auto simp: train_play_def Let_def)
  from apply_effects_frame [OF e]
  have f: "hand s1 = hand s" "num_rounds s1 = num_rounds s" "current_round s1 = current_round s"
    by simp_all
  from assms e have
    "s' = s1\<lparr>hand := remove1 c (hand s1), discard_pile := discard_pile s1 @ [c],
            buff_play_count := buff_play_count s1 - 1\<rparr>"
    by (simp add: train_play_def Let_def split: sum.splits)
  with f show "hand s' = remove1 c (hand s)" "num_rounds s' = num_rounds s"
    "current_round s' = current_round s" by simp_all
qed

text \<open>
  The play loop of \<^verbatim>\<open>train\<close>. \<^verbatim>\<open>if not selected_card: break\<close> is the branch of None.
\<close>

function train_plays :: "store \<Rightarrow> train_vars \<Rightarrow> error + train_vars" where
  "train_plays h (a, s, g, prev_state_key, episode_actions, episode_rewards) =
     (if buff_play_count s > 0 \<and> hand s \<noteq> [] then
        case choose_card h a s g of
          (None, a1, g1) \<Rightarrow> Inr (a1, s, g1, prev_state_key, episode_actions, episode_rewards)
        | (Some selected_card, a1, g1) \<Rightarrow>
            (case train_play h selected_card
                    (a1, s, g1, prev_state_key, episode_actions, episode_rewards) of
               Inl e \<Rightarrow> Inl e
             | Inr v \<Rightarrow> train_plays h v)
      else Inr (a, s, g, prev_state_key, episode_actions, episode_rewards))"
  by pat_completeness auto
termination
proof (relation "measure (\<lambda>(h, a, s, v). length (hand s))")
  show "wf (measure (\<lambda>(h, a, s, v). length (hand s)))" by simp
next
  fix h :: store and a a1 :: Agent and s :: GameState and g g1 :: rng
    and prev_state_key :: state_key and episode_actions :: "string list"
    and episode_rewards :: "int list" and x1 :: "ref option" and x2 y selected_card
    and v :: train_vars
  assume go: "0 < buff_play_count s \<and> hand s \<noteq> []"
    and c1: "(x1, x2) = choose_card h a s g"
    and c2: "(a1, g1) = x2"
    and c3: "x1 = Some selected_card"
    and p: "train_play h selected_card
              (a1, s, g1, prev_state_key, episode_actions, episode_rewards) = Inr v"
  obtain a' s' g' k' acts' rews' where v: "v = (a', s', g', k', acts', rews')"
    by (cases v)
  from c1 c2 c3 have "choose_card h a s g = (Some selected_card, a1, g1)" by simp
  then have "selected_card \<in> set (hand s)" by (rule choose_card_in_hand)
  then have "length (remove1 selected_card (hand s)) < length (hand s)"
    by (simp add: length_remove1) (use go in \<open>cases "hand s"; simp\<close>)
  with train_play_frame(1) [OF p [unfolded v]]
  show "((h, v), (h, a, s, g, prev_state_key, episode_actions, episode_rewards))
      \<in> measure (\<lambda>(h, a, s, v). length (hand s))"
    by (simp add: v)
qed

declare train_plays.simps [simp del]

lemma train_plays_frame:
  "train_plays h (a, s, g, k, acts, rews) = Inr (a', s', g', k', acts', rews') \<Longrightarrow>
     num_rounds s' = num_rounds s \<and> current_round s' = current_round s"
proof (induction h "(a, s, g, k, acts, rews)" arbitrary: a s g k acts rews
    rule: train_plays.induct)
  case (1 h a s g k acts rews)
  show ?case
  proof (cases "buff_play_count s > 0 \<and> hand s \<noteq> []")
    case False
    with "1.prems" show ?thesis by (simp add: train_plays.simps)
  next
    case go: True
    obtain x1 a1 g1 where ch: "choose_card h a s g = (x1, a1, g1)"
      by (cases "choose_card h a s g")
    show ?thesis
    proof (cases x1)
      case None
      with "1.prems" go ch show ?thesis by (simp add: train_plays.simps [of h a s g])
    next
      case (Some c)
      show ?thesis
      proof (cases "train_play h c (a1, s, g1, k, acts, rews)")
        case (Inl e)
        with "1.prems" go ch Some show ?thesis by (simp add: train_plays.simps [of h a s g])
      next
        case (Inr v)
        obtain a2 s2 g2 k2 acts2 rews2 where v: "v = (a2, s2, g2, k2, acts2, rews2)"
          by (cases v)
        from "1.prems" go ch Some Inr v
        have r: "train_plays h (a2, s2, g2, k2, acts2, rews2) = Inr (a', s', g', k', acts', rews')"
          by (simp add: train_plays.simps [of h a s g])
        have "num_rounds s' = num_rounds s2 \<and> current_round s' = current_round s2"
          by (rule "1.hyps" [OF go ch [symmetric] Some refl Inr [unfolded v] r])
        with train_play_frame(2,3) [OF Inr [unfolded v]] show ?thesis by simp
      qed
    qed
  qed
qed

text \<open>The body of the main loop of \<^verbatim>\<open>train\<close>: one cycle of the three phases.\<close>

type_synonym episode_vars = "Agent \<times> GameState \<times> rng \<times> string list \<times> int list"

definition train_cycle :: "store \<Rightarrow> episode_vars \<Rightarrow> error + episode_vars" where
  "train_cycle h = (\<lambda>(a, s, g, episode_actions, episode_rewards).
     let (s1, g1, log_entries) = handle_phase_start (s\<lparr>current_phase := TURN_START\<rparr>, g);
         s2 = s1\<lparr>current_phase := PLAYER_ACTION\<rparr>;
         prev_state_key = get_state_key s2
     in case train_plays h (a, s2, g1, prev_state_key, episode_actions, episode_rewards) of
          Inl e \<Rightarrow> Inl e
        | Inr (a3, s3, g3, k3, actions3, rewards3) \<Rightarrow>
            let s4 = reset_for_new_round (s3\<lparr>current_phase := TURN_END\<rparr>) in
            Inr (a3, s4\<lparr>current_round := current_round s4 + 1\<rparr>, g3, actions3, rewards3))"

lemma train_cycle_frame:
  assumes "train_cycle h (a, s, g, acts, rews) = Inr (a', s', g', acts', rews')"
  shows "num_rounds s' = num_rounds s \<and> current_round s' = current_round s + 1"
proof -
  obtain s1 g1 l where t: "handle_phase_start (s\<lparr>current_phase := TURN_START\<rparr>, g) = (s1, g1, l)"
    by (cases "handle_phase_start (s\<lparr>current_phase := TURN_START\<rparr>, g)")
  from handle_phase_start_frame [of "s\<lparr>current_phase := TURN_START\<rparr>" g] t
  have f: "num_rounds s1 = num_rounds s" "current_round s1 = current_round s" by simp_all
  let ?s2 = "s1\<lparr>current_phase := PLAYER_ACTION\<rparr>"
  show ?thesis
  proof (cases "train_plays h (a, ?s2, g1, get_state_key ?s2, acts, rews)")
    case (Inl e)
    with assms t show ?thesis by (simp add: train_cycle_def Let_def)
  next
    case (Inr v)
    obtain a3 s3 g3 k3 acts3 rews3 where v: "v = (a3, s3, g3, k3, acts3, rews3)" by (cases v)
    from train_plays_frame [OF Inr [unfolded v]] f
    have b: "num_rounds s3 = num_rounds s" "current_round s3 = current_round s" by simp_all
    from assms t Inr v
    have "s' = (reset_for_new_round (s3\<lparr>current_phase := TURN_END\<rparr>))
             \<lparr>current_round := current_round (reset_for_new_round (s3\<lparr>current_phase := TURN_END\<rparr>)) + 1\<rparr>"
      by (simp add: train_cycle_def Let_def)
    with b show ?thesis by (simp add: reset_for_new_round_def)
  qed
qed

text \<open>The main loop of one episode of \<^verbatim>\<open>train\<close>.\<close>

function train_loop :: "store \<Rightarrow> episode_vars \<Rightarrow> error + episode_vars" where
  "train_loop h (a, s, g, episode_actions, episode_rewards) =
     (if running s then
        case train_cycle h (a, s, g, episode_actions, episode_rewards) of
          Inl e \<Rightarrow> Inl e
        | Inr v \<Rightarrow> train_loop h v
      else Inr (a, s, g, episode_actions, episode_rewards))"
  by pat_completeness auto
termination
proof (relation "measure (\<lambda>(h, a, s, v). nat (num_rounds s + 1 - current_round s))")
  show "wf (measure (\<lambda>(h, a, s, v). nat (num_rounds s + 1 - current_round s)))" by simp
next
  fix h :: store and a :: Agent and s :: GameState and g :: rng
    and episode_actions :: "string list" and episode_rewards :: "int list"
    and v :: episode_vars
  assume run: "running s"
    and c: "train_cycle h (a, s, g, episode_actions, episode_rewards) = Inr v"
  obtain a' s' g' acts' rews' where v: "v = (a', s', g', acts', rews')" by (cases v)
  from train_cycle_frame [OF c [unfolded v]] run
  show "((h, v), (h, a, s, g, episode_actions, episode_rewards))
      \<in> measure (\<lambda>(h, a, s, v). nat (num_rounds s + 1 - current_round s))"
    by (simp add: v running_def)
qed

declare train_loop.simps [simp del]

text \<open>
  One episode of \<^verbatim>\<open>train\<close>: a fresh \<^verbatim>\<open>GameState\<close> over the agent's deck (hand size 5,
  vitality 30), then the main loop. The card objects of the deck are those of earlier
  episodes; the store is returned with the loop's result.
\<close>

definition train_episode ::
  "int \<Rightarrow> int \<Rightarrow> Agent \<times> store \<times> rng \<Rightarrow> store \<times> (error + episode_vars)" where
  "train_episode rounds target = (\<lambda>(a, h, g).
     let (s, h1, g1) = GameState_init (agent_deck a) rounds target 5 30 (h, g) in
     (h1, train_loop h1 (a, s, g1, [], [])))"

text \<open>\<^verbatim>\<open>Game.__init__\<close> followed by \<^verbatim>\<open>Game.start\<close>.\<close>

definition Game_run ::
  "ref list \<Rightarrow> int \<Rightarrow> int \<Rightarrow> int \<Rightarrow> int \<Rightarrow> store \<times> rng \<times> entry list \<Rightarrow>
     store \<times> (error + GameState \<times> rng \<times> entry list)" where
  "Game_run dk rounds target max_hand starting_vitality = (\<lambda>(h, g, inp).
     let (s, h1, g1) = GameState_init dk rounds target max_hand starting_vitality (h, g) in
     (h1, start h1 (s, g1, inp)))"

section \<open>Concrete inputs and notions of the statements\<close>

text \<open>A card object as \<^verbatim>\<open>Card.__init__\<close> leaves it, without a name.\<close>

definition example_card :: "int \<Rightarrow> bool \<Rightarrow> bool \<Rightarrow> Effect list \<Rightarrow> Card" where
  "example_card cst bypass exh effs =
     \<lparr>name = [], effects = effs, cost = cst, bypass_spirit = bypass, shuffle_priority = 0,
      exhaust = exh, shuffle_random = 0\<rparr>"

definition example_effect :: "EffectType \<Rightarrow> int \<Rightarrow> Effect" where
  "example_effect t v = \<lparr>eff_type = t, eff_value = v, eff_bypass_spirit = False\<rparr>"

text \<open>A generator whose every float is \<open>1/2\<close> and whose every integer draw is \<open>0\<close>.\<close>

definition example_rng :: rng where
  "example_rng = \<lparr>uniform = (\<lambda>k. 1 / 2), below = (\<lambda>k n. 0), calls = 0\<rparr>"

text \<open>
  The state reached from a fresh one by playing a free card whose one effect is a spirit
  gain of \<open>-2\<close>.
\<close>

definition drained_state :: GameState where
  "drained_state =
     (case apply_effects (example_card 0 False False [example_effect SPIRIT (- 2)])
             (GameState_fields [] 9 90 5 30) of
        Inl e \<Rightarrow> GameState_fields [] 9 90 5 30
      | Inr (s, log_entries) \<Rightarrow> s)"

text \<open>A state whose hand of two cards is at its cap of two, with two cards left to draw.\<close>

definition capped_state :: GameState where
  "capped_state = (GameState_fields [0, 1, 2, 3] 9 90 2 30)\<lparr>hand := [0, 1], draw_pile := [2, 3]\<rparr>"

text \<open>
  A state whose hand is at its cap of two while the draw pile is empty and the discard
  pile holds the cards 0 and 1; in the store, card 0 still has the random value
  \<open>9/10\<close> of the first shuffle and card 1 the value \<open>1/10\<close>.
\<close>

definition refill_state :: GameState where
  "refill_state = (GameState_fields [0, 1, 2, 3] 9 90 2 30)\<lparr>hand := [2, 3], discard_pile := [0, 1]\<rparr>"

definition refill_store :: store where
  "refill_store =
     [(example_card 4 False False [])\<lparr>shuffle_random := 9 / 10\<rparr>,
      (example_card 4 False False [])\<lparr>shuffle_random := 1 / 10\<rparr>,
      example_card 0 False False [], example_card 0 False False []]"

text \<open>
  The subsequent-shuffle rule in the words of the spec (it is the else-branch of
  \<^verbatim>\<open>_initialize_draw_pile\<close>, applied to a pile): a fresh random value for each card, then
  descending by that value alone.
\<close>

definition subsequent_shuffle_rule :: "ref list \<Rightarrow> store \<times> rng \<Rightarrow> ref list \<times> store \<times> rng" where
  "subsequent_shuffle_rule pile = (\<lambda>(h, g).
     let (h1, g1) = assign_shuffle_random pile (h, g) in
     (sort_reverse (\<lambda>x. shuffle_random (h1 ! x)) pile, h1, g1))"

text \<open>The deck and the store that \<^verbatim>\<open>create_base_deck\<close> builds in a fresh process.\<close>

definition base_deck :: "ref list" where
  "base_deck = (case create_base_deck [] of Inl e \<Rightarrow> [] | Inr (dk, h) \<Rightarrow> dk)"

definition base_store :: store where
  "base_store = (case create_base_deck [] of Inl e \<Rightarrow> [] | Inr (dk, h) \<Rightarrow> h)"

text \<open>
  Two readings of the Q-table that the update rule is stated with. The value that a table
  holds for a state and a card name: a row or an entry that is not there reads as 0, the
  value that it is initialised with. And the values of the row of the next state as the
  update finds them: a row that is not there is initialised over the agent's deck.
\<close>

definition stored_value :: "(state_key \<rightharpoonup> q_row) \<Rightarrow> state_key \<Rightarrow> string \<Rightarrow> real" where
  "stored_value table key n = (case table key of None \<Rightarrow> 0 | Some row \<Rightarrow> row_get row n)"

definition next_row_values :: "store \<Rightarrow> Agent \<Rightarrow> state_key \<Rightarrow> real list" where
  "next_row_values h a curr_state =
     map snd (case q_table a curr_state of
                None \<Rightarrow> row_init (map (\<lambda>c. name (h ! c)) (agent_deck a))
              | Some row \<Rightarrow> row)"


definition single_store :: store where
  "single_store = [(example_card 4 False False [example_effect DAMAGE 9])\<lparr>name := ''a''\<rparr>]"

text \<open>
  An agent with the default rates over the same deck, and a state with that card in hand
  and a score of 9 already.
\<close>

definition default_agent :: Agent where
  "default_agent = Agent_init [0] (1 / 10) (9 / 10) (1 / 10)"


text \<open>
  Running a loop body on a result: an error stays an error. The \<open>n\<close>-fold power of it is
  \<open>n\<close> cycles of a main loop, one after the other.
\<close>

definition then_cycle :: "('x \<Rightarrow> error + 'x) \<Rightarrow> error + 'x \<Rightarrow> error + 'x" where
  "then_cycle f r = (case r of Inl e \<Rightarrow> Inl e | Inr x \<Rightarrow> f x)"

text \<open>\<open>n\<close> turn starts in a row, the log entries dropped.\<close>

fun turn_starts :: "nat \<Rightarrow> GameState \<times> rng \<Rightarrow> GameState \<times> rng" where
  "turn_starts 0 sg = sg"
| "turn_starts (Suc n) sg =
     (let (s1, g1, log_entries) = handle_phase_start (turn_starts n sg) in (s1, g1))"

text \<open>
  A state of the base deck with one play left and one card in hand, the card of slot 6 of
  the deck (object 3: cost 7, two damage effects of 9, exhaust), and an agent with the
  default rates over the base deck.
\<close>

definition exhaust_hand_state :: GameState where
  "exhaust_hand_state = (GameState_fields base_deck 9 90 5 30)\<lparr>hand := [base_deck ! 6]\<rparr>"

definition base_agent :: Agent where
  "base_agent = Agent_init base_deck (1 / 10) (9 / 10) (1 / 10)"

text \<open>A generator whose \<open>k\<close>-th float is \<open>1 / (k + 2)\<close>: no two calls return the same.\<close>

definition counting_rng :: rng where
  "counting_rng = \<lparr>uniform = (\<lambda>k. 1 / (real k + 2)), below = (\<lambda>k n. 0), calls = 0\<rparr>"

section \<open>Auxiliary lemmas\<close>


lemma bit_length_eq:
  assumes "2 ^ k \<le> n" "n < 2 ^ Suc k"
  shows "bit_length n = Suc k"
  using assms
proof (induction k arbitrary: n)
  case 0
  then have "n = 1" by simp
  then show ?case by (simp add: bit_length.simps)
next
  case (Suc k)
  from Suc.prems have "2 ^ k \<le> n div 2" "n div 2 < 2 ^ Suc k" "n \<noteq> 0" by auto
  with Suc.IH [of "n div 2"] show ?case by (simp add: bit_length.simps [of n])
qed








lemma floor_mul_1_5_in_range: "floor_mul_1_5 (2 ^ 1023) = Inr (3 * 2 ^ 1022)"
proof -
  have "bit_length (nat \<bar>2 ^ 1023\<bar>) = Suc 1023"
    by (rule bit_length_eq) simp_all
  moreover have "bit_length (nat \<bar>3 * 2 ^ 1023\<bar>) = Suc 1024"
    by (rule bit_length_eq) simp_all
  ultimately show ?thesis
    by (simp add: floor_mul_1_5_def round53_def round_half_even_def Let_def)
qed


lemma display_effects_no_mood: "\<not> 0 < buff_mood s \<Longrightarrow> display_effects s es = None"
  by (induction es) simp_all

lemma display_cards_no_mood: "\<not> 0 < buff_mood s \<Longrightarrow> display_cards s cs = None"
  by (induction cs) (simp_all add: display_effects_no_mood)

lemma display_hand_no_mood: "\<not> 0 < buff_mood s \<Longrightarrow> display_hand h s = None"
  by (simp add: display_hand_def display_cards_no_mood)

lemma drained_state_fields: "spirit drained_state = - 2" "vitality drained_state = 30"
  by (simp_all add: drained_state_def apply_effects_def apply_cost_def example_card_def
      example_effect_def GameState_fields_def)

lemma apply_effects_loop_without_draw:
  "apply_effects_loop (filter (\<lambda>e. eff_type e \<noteq> DRAW) es) p = apply_effects_loop es p"
  by (induction es arbitrary: p) (auto split: sum.splits)

lemma draw_step_shape:
  assumes "draw_step (s, g) = Some (s', g')"
  shows "\<exists>dp di ha. s' = s\<lparr>draw_pile := dp, discard_pile := di, hand := ha\<rparr>"
proof (cases "draw_pile s = []")
  case True
  obtain pile g1 where r: "random_shuffle (discard_pile s) g = (pile, g1)"
    by (cases "random_shuffle (discard_pile s) g")
  from assms True r
  have "s' = s\<lparr>draw_pile := pile, discard_pile := [], hand := hand s\<rparr> \<or>
        s' = s\<lparr>draw_pile := butlast pile, discard_pile := [], hand := hand s @ [last pile]\<rparr>"
    by (auto simp: draw_step_def Let_def split: if_splits)
  then show ?thesis by blast
next
  case False
  from assms False
  have "s' = s\<lparr>draw_pile := draw_pile s, discard_pile := discard_pile s, hand := hand s\<rparr> \<or>
        s' = s\<lparr>draw_pile := butlast (draw_pile s), discard_pile := discard_pile s,
               hand := hand s @ [last (draw_pile s)]\<rparr>"
    by (auto simp: draw_step_def Let_def split: if_splits)
  then show ?thesis by blast
qed

lemma draw_cards_shape:
  "draw_cards n (s, g) = (s', g') \<Longrightarrow>
     \<exists>dp di ha. s' = s\<lparr>draw_pile := dp, discard_pile := di, hand := ha\<rparr>"
proof (induction n arbitrary: s g)
  case 0
  then have "s' = s\<lparr>draw_pile := draw_pile s, discard_pile := discard_pile s, hand := hand s\<rparr>"
    by simp
  then show ?case by blast
next
  case (Suc n)
  show ?case
  proof (cases "draw_step (s, g)")
    case None
    with Suc.prems
    have "s' = s\<lparr>draw_pile := draw_pile s, discard_pile := discard_pile s, hand := hand s\<rparr>"
      by simp
    then show ?thesis by blast
  next
    case (Some sg)
    obtain s1 g1 where sg: "sg = (s1, g1)" by (cases sg)
    from draw_step_shape [OF Some [unfolded sg]]
    obtain dp di ha where s1: "s1 = s\<lparr>draw_pile := dp, discard_pile := di, hand := ha\<rparr>"
      by blast
    from Suc.prems Some sg have "draw_cards n (s1, g1) = (s', g')" by simp
    from Suc.IH [OF this]
    obtain dp' di' ha' where "s' = s1\<lparr>draw_pile := dp', discard_pile := di', hand := ha'\<rparr>"
      by blast
    with s1 have "s' = s\<lparr>draw_pile := dp', discard_pile := di', hand := ha'\<rparr>" by simp
    then show ?thesis by blast
  qed
qed

lemma shuffle_loop_mset:
  "i < length x \<Longrightarrow> mset (fst (shuffle_loop i x g)) = mset x"
proof (induction i arbitrary: x g)
  case 0
  show ?case by simp
next
  case (Suc i)
  obtain j g1 where r: "randbelow (Suc i + 1) g = (j, g1)" by (cases "randbelow (Suc i + 1) g")
  then have "j < Suc i + 1" by (auto simp: randbelow_def)
  with Suc.prems have j: "j < length x" by simp
  let ?x' = "x[Suc i := x ! j, j := x ! Suc i]"
  have "mset ?x' = mset x" using j Suc.prems by (rule mset_swap)
  moreover have "mset (fst (shuffle_loop i ?x' g1)) = mset ?x'"
    using Suc.prems by (intro Suc.IH) simp
  ultimately show ?case using r by simp
qed

lemma random_shuffle_mset: "mset (fst (random_shuffle x g)) = mset x"
proof (cases x)
  case Nil
  then show ?thesis by (simp add: random_shuffle_def)
next
  case (Cons a as)
  then have "length x - 1 < length x" by simp
  then show ?thesis unfolding random_shuffle_def by (rule shuffle_loop_mset)
qed

lemma handle_phase_start_unfold:
  assumes "mood_decay s = (s1, l)"
  shows "\<exists>dp di ha g'. handle_phase_start (s, g) =
           (s1\<lparr>buff_play_count := 1, draw_pile := dp, discard_pile := di, hand := ha\<rparr>,
            g', l @ [LogDrew3])"
proof -
  obtain s3 g3 where d: "draw_cards 3 (s1\<lparr>buff_play_count := 1\<rparr>, g) = (s3, g3)"
    by (cases "draw_cards 3 (s1\<lparr>buff_play_count := 1\<rparr>, g)")
  from draw_cards_shape [OF d] obtain dp di ha where
    s3: "s3 = s1\<lparr>buff_play_count := 1, draw_pile := dp, discard_pile := di, hand := ha\<rparr>"
    by auto
  have "handle_phase_start (s, g) = (s3, g3, l @ [LogDrew3])"
    by (simp add: handle_phase_start_def d assms)
  with s3 show ?thesis by blast
qed

lemma handle_phase_start_buffs:
  "buff_mood (fst (handle_phase_start (s, g))) = buff_mood (fst (mood_decay s))"
  "new_buff_mood (fst (handle_phase_start (s, g))) = new_buff_mood (fst (mood_decay s))"
  "buff_play_count (fst (handle_phase_start (s, g))) = 1"
proof -
  obtain s1 l where m: "mood_decay s = (s1, l)" by (cases "mood_decay s")
  from handle_phase_start_unfold [OF m, of g]
  show "buff_mood (fst (handle_phase_start (s, g))) = buff_mood (fst (mood_decay s))"
    "new_buff_mood (fst (handle_phase_start (s, g))) = new_buff_mood (fst (mood_decay s))"
    "buff_play_count (fst (handle_phase_start (s, g))) = 1"
    by (auto simp: m)
qed

lemma build_deck_length:
  "build_deck ts (dk, h) = Inr (dk', h') \<Longrightarrow>
     length dk' = length dk + (\<Sum>d\<leftarrow>ts. nat (case c_count d of None \<Rightarrow> 1 | Some n \<Rightarrow> n))"
proof (induction ts arbitrary: dk h)
  case Nil
  then show ?case by simp
next
  case (Cons d ts)
  then show ?case
    by (auto simp: Let_def split: sum.splits)
qed

lemma create_base_deck_value:
  "create_base_deck [] = Inr (base_deck, base_store)"
  "base_deck = [0, 0, 1, 1, 2, 2, 3, 4, 5, 6, 7]"
  by (simp_all add: base_deck_def base_store_def create_base_deck_def CARDS_def Card_init_def
      EffectType_of_def effect_dict_def numeral_2_eq_2)

lemma map_of_row_init:
  "map_of (fold (\<lambda>n row. AList.update n 0 row) names row) k
     = (if k \<in> set names then Some 0 else map_of row k)"
  by (induction names arbitrary: row) (auto simp: update_conv')




lemma update_q_table_total:
  assumes "next_row_values h a curr_state \<noteq> []"
  shows "\<exists>a'. update_q_table h a prev_state n reward curr_state = Inr a'"
proof -
  let ?names = "map (\<lambda>c. name (h ! c)) (agent_deck a)"
  obtain t1 prev_row where e1: "ensure_row (q_table a) prev_state ?names = (t1, prev_row)"
    by (cases "ensure_row (q_table a) prev_state ?names")
  obtain t2 curr_row where e2: "ensure_row t1 curr_state ?names = (t2, curr_row)"
    by (cases "ensure_row t1 curr_state ?names")
  from e1 e2 have nxt: "map snd curr_row = next_row_values h a curr_state"
    by (auto simp: ensure_row_def next_row_values_def split: option.splits if_splits)
  have "map snd curr_row \<noteq> []" by (simp add: nxt assms)
  then obtain v vs where "map snd curr_row = v # vs"
    by (cases "map snd curr_row") simp_all
  then have "py_max (map snd curr_row) = Inr (fold max vs v)" by simp
  with e1 e2 show ?thesis by (simp add: update_q_table_def Let_def)
qed



lemma then_cycle_simps [simp]:
  "then_cycle f (Inl e) = Inl e"
  "then_cycle f (Inr x) = f x"
  by (simp_all add: then_cycle_def)

lemma then_cycle_pow_Inl [simp]: "(then_cycle f ^^ n) (Inl e) = Inl e"
  by (induction n) simp_all

lemma start_cycles:
  "\<exists>n\<le>nat (num_rounds s + 1 - current_round s).
     start h (s, g, inp) = (then_cycle (game_cycle h) ^^ n) (Inr (s, g, inp)) \<and>
     (\<forall>k<n. case (then_cycle (game_cycle h) ^^ k) (Inr (s, g, inp)) of
               Inl e \<Rightarrow> False
             | Inr (sk, gk, inpk) \<Rightarrow> running sk)"
proof (induction h "(s, g, inp)" arbitrary: s g inp rule: start.induct)
  case (1 h s g inp)
  let ?tc = "then_cycle (game_cycle h)"
  show ?case
  proof (cases "running s")
    case False
    then have "start h (s, g, inp) = (?tc ^^ 0) (Inr (s, g, inp))"
      by (simp add: start.simps)
    then show ?thesis by blast
  next
    case run: True
    then have pos: "1 \<le> nat (num_rounds s + 1 - current_round s)"
      unfolding running_def by linarith
    show ?thesis
    proof (cases "game_cycle h (s, g, inp)")
      case (Inl e)
      with run have "start h (s, g, inp) = (?tc ^^ 1) (Inr (s, g, inp))"
        by (simp add: start.simps)
      moreover from run have "\<forall>k<1. case (?tc ^^ k) (Inr (s, g, inp)) of
               Inl e \<Rightarrow> False | Inr (sk, gk, inpk) \<Rightarrow> running sk"
        by simp
      ultimately show ?thesis using pos by blast
    next
      case (Inr x)
      obtain s1 g1 inp1 where x: "x = (s1, g1, inp1)" by (cases x)
      from "1.hyps" [OF run Inr [unfolded x]] obtain n where
        n: "n \<le> nat (num_rounds s1 + 1 - current_round s1)"
        and st: "start h (s1, g1, inp1) = (?tc ^^ n) (Inr (s1, g1, inp1))"
        and rn: "\<forall>k<n. case (?tc ^^ k) (Inr (s1, g1, inp1)) of
               Inl e \<Rightarrow> False | Inr (sk, gk, inpk) \<Rightarrow> running sk"
        by blast
      from game_cycle_frame [OF Inr [unfolded x]] n pos
      have "Suc n \<le> nat (num_rounds s + 1 - current_round s)" by simp
      moreover from run Inr x st
      have "start h (s, g, inp) = (?tc ^^ Suc n) (Inr (s, g, inp))"
        by (simp add: start.simps [of h s g inp] funpow_swap1)
      moreover have "\<forall>k<Suc n. case (?tc ^^ k) (Inr (s, g, inp)) of
               Inl e \<Rightarrow> False | Inr (sk, gk, inpk) \<Rightarrow> running sk"
      proof (intro allI impI)
        fix k assume k: "k < Suc n"
        show "case (?tc ^^ k) (Inr (s, g, inp)) of
               Inl e \<Rightarrow> False | Inr (sk, gk, inpk) \<Rightarrow> running sk"
        proof (cases k)
          case 0
          with run show ?thesis by simp
        next
          case (Suc k')
          with k rn have "case (?tc ^^ k') (Inr (s1, g1, inp1)) of
               Inl e \<Rightarrow> False | Inr (sk, gk, inpk) \<Rightarrow> running sk"
            by simp
          with Suc Inr x show ?thesis by (simp add: funpow_swap1)
        qed
      qed
      ultimately show ?thesis by blast
    qed
  qed
qed

lemma start_final:
  "start h (s, g, inp) = Inr (s', g', inp') \<Longrightarrow> \<not> running s'"
proof (induction h "(s, g, inp)" arbitrary: s g inp rule: start.induct)
  case (1 h s g inp)
  show ?case
  proof (cases "running s")
    case False
    with "1.prems" show ?thesis by (simp add: start.simps)
  next
    case run: True
    show ?thesis
    proof (cases "game_cycle h (s, g, inp)")
      case (Inl e)
      with run "1.prems" show ?thesis by (simp add: start.simps)
    next
      case (Inr x)
      obtain s1 g1 inp1 where x: "x = (s1, g1, inp1)" by (cases x)
      from run Inr x "1.prems" have "start h (s1, g1, inp1) = Inr (s', g', inp')"
        by (simp add: start.simps [of h s g inp])
      from "1.hyps" [OF run Inr [unfolded x] this] show ?thesis .
    qed
  qed
qed

lemma play_turn_hand:
  "play_turn h (s, inp) = Inr (s', inp') \<Longrightarrow> length (hand s') \<le> length (hand s)"
proof (induction h "(s, inp)" arbitrary: s inp rule: play_turn.induct)
  case (1 h s inp)
  show ?case
  proof (cases "buff_play_count s > 0 \<and> hand s \<noteq> []")
    case False
    with "1.prems" show ?thesis by (simp add: play_turn.simps)
  next
    case go: True
    from go "1.prems" show ?thesis
    proof (cases rule: play_turn_unfold)
      case (skip rest)
      then show ?thesis by simp
    next
      case (play choice rest s1)
      from "1.hyps" [OF go play(1) play(2) refl play(3) play(4) play(5)]
      have "length (hand s') \<le> length (remove1 (hand s ! nat (choice - 1)) (hand s))"
        by (simp add: play_card_frame(1) [OF play(4)])
      also have "\<dots> \<le> length (hand s)" by (simp add: length_remove1)
      finally show ?thesis .
    qed
  qed
qed

lemma train_loop_cycles:
  "\<exists>n\<le>nat (num_rounds s + 1 - current_round s).
     train_loop h (a, s, g, acts, rews) = (then_cycle (train_cycle h) ^^ n) (Inr (a, s, g, acts, rews)) \<and>
     (\<forall>k<n. case (then_cycle (train_cycle h) ^^ k) (Inr (a, s, g, acts, rews)) of
               Inl e \<Rightarrow> False
             | Inr (ak, sk, gk, actsk, rewsk) \<Rightarrow> running sk)"
proof (induction h "(a, s, g, acts, rews)" arbitrary: a s g acts rews rule: train_loop.induct)
  case (1 h a s g acts rews)
  let ?tc = "then_cycle (train_cycle h)"
  show ?case
  proof (cases "running s")
    case False
    then have "train_loop h (a, s, g, acts, rews) = (?tc ^^ 0) (Inr (a, s, g, acts, rews))"
      by (simp add: train_loop.simps)
    then show ?thesis by blast
  next
    case run: True
    then have pos: "1 \<le> nat (num_rounds s + 1 - current_round s)"
      unfolding running_def by linarith
    show ?thesis
    proof (cases "train_cycle h (a, s, g, acts, rews)")
      case (Inl e)
      with run have "train_loop h (a, s, g, acts, rews) = (?tc ^^ 1) (Inr (a, s, g, acts, rews))"
        by (simp add: train_loop.simps)
      moreover from run have "\<forall>k<1. case (?tc ^^ k) (Inr (a, s, g, acts, rews)) of
               Inl e \<Rightarrow> False | Inr (ak, sk, gk, actsk, rewsk) \<Rightarrow> running sk"
        by simp
      ultimately show ?thesis using pos by blast
    next
      case (Inr x)
      obtain a1 s1 g1 acts1 rews1 where x: "x = (a1, s1, g1, acts1, rews1)" by (cases x)
      from "1.hyps" [OF run Inr [unfolded x]] obtain n where
        n: "n \<le> nat (num_rounds s1 + 1 - current_round s1)"
        and st: "train_loop h (a1, s1, g1, acts1, rews1) = (?tc ^^ n) (Inr (a1, s1, g1, acts1, rews1))"
        and rn: "\<forall>k<n. case (?tc ^^ k) (Inr (a1, s1, g1, acts1, rews1)) of
               Inl e \<Rightarrow> False | Inr (ak, sk, gk, actsk, rewsk) \<Rightarrow> running sk"
        by blast
      from train_cycle_frame [OF Inr [unfolded x]] n pos
      have "Suc n \<le> nat (num_rounds s + 1 - current_round s)" by simp
      moreover from run Inr x st
      have "train_loop h (a, s, g, acts, rews) = (?tc ^^ Suc n) (Inr (a, s, g, acts, rews))"
        by (simp add: train_loop.simps [of h a s g acts rews] funpow_swap1)
      moreover have "\<forall>k<Suc n. case (?tc ^^ k) (Inr (a, s, g, acts, rews)) of
               Inl e \<Rightarrow> False | Inr (ak, sk, gk, actsk, rewsk) \<Rightarrow> running sk"
      proof (intro allI impI)
        fix k assume k: "k < Suc n"
        show "case (?tc ^^ k) (Inr (a, s, g, acts, rews)) of
               Inl e \<Rightarrow> False | Inr (ak, sk, gk, actsk, rewsk) \<Rightarrow> running sk"
        proof (cases k)
          case 0
          with run show ?thesis by simp
        next
          case (Suc k')
          with k rn have "case (?tc ^^ k') (Inr (a1, s1, g1, acts1, rews1)) of
               Inl e \<Rightarrow> False | Inr (ak, sk, gk, actsk, rewsk) \<Rightarrow> running sk"
            by simp
          with Suc Inr x show ?thesis by (simp add: funpow_swap1)
        qed
      qed
      ultimately show ?thesis by blast
    qed
  qed
qed

lemma train_loop_final:
  "train_loop h (a, s, g, acts, rews) = Inr (a', s', g', acts', rews') \<Longrightarrow> \<not> running s'"
proof (induction h "(a, s, g, acts, rews)" arbitrary: a s g acts rews rule: train_loop.induct)
  case (1 h a s g acts rews)
  show ?case
  proof (cases "running s")
    case False
    with "1.prems" show ?thesis by (simp add: train_loop.simps)
  next
    case run: True
    show ?thesis
    proof (cases "train_cycle h (a, s, g, acts, rews)")
      case (Inl e)
      with run "1.prems" show ?thesis by (simp add: train_loop.simps)
    next
      case (Inr v)
      obtain a1 s1 g1 acts1 rews1 where v: "v = (a1, s1, g1, acts1, rews1)" by (cases v)
      from run Inr v "1.prems"
      have "train_loop h (a1, s1, g1, acts1, rews1) = Inr (a', s', g', acts', rews')"
        by (simp add: train_loop.simps [of h a s g acts rews])
      from "1.hyps" [OF run Inr [unfolded v] this] show ?thesis .
    qed
  qed
qed

lemma train_plays_hand:
  "train_plays h (a, s, g, k, acts, rews) = Inr (a', s', g', k', acts', rews') \<Longrightarrow>
     length (hand s') \<le> length (hand s) \<and>
     length acts' + length (hand s') = length acts + length (hand s)"
proof (induction h "(a, s, g, k, acts, rews)" arbitrary: a s g k acts rews
    rule: train_plays.induct)
  case (1 h a s g k acts rews)
  show ?case
  proof (cases "buff_play_count s > 0 \<and> hand s \<noteq> []")
    case False
    with "1.prems" show ?thesis by (simp add: train_plays.simps)
  next
    case go: True
    obtain x1 a1 g1 where ch: "choose_card h a s g = (x1, a1, g1)"
      by (cases "choose_card h a s g")
    show ?thesis
    proof (cases x1)
      case None
      with "1.prems" go ch show ?thesis by (simp add: train_plays.simps [of h a s g])
    next
      case (Some c)
      from ch Some have cin: "c \<in> set (hand s)" by (auto intro: choose_card_in_hand)
      show ?thesis
      proof (cases "train_play h c (a1, s, g1, k, acts, rews)")
        case (Inl e)
        with "1.prems" go ch Some show ?thesis by (simp add: train_plays.simps [of h a s g])
      next
        case (Inr v)
        obtain a2 s2 g2 k2 acts2 rews2 where v: "v = (a2, s2, g2, k2, acts2, rews2)"
          by (cases v)
        from "1.prems" go ch Some Inr v
        have r: "train_plays h (a2, s2, g2, k2, acts2, rews2) = Inr (a', s', g', k', acts', rews')"
          by (simp add: train_plays.simps [of h a s g])
        have ih: "length (hand s') \<le> length (hand s2) \<and>
            length acts' + length (hand s') = length acts2 + length (hand s2)"
          by (rule "1.hyps" [OF go ch [symmetric] Some refl Inr [unfolded v] r])
        have h2: "hand s2 = remove1 c (hand s)"
          by (rule train_play_frame(1) [OF Inr [unfolded v]])
        from Inr v have a2: "acts2 = acts @ [name (h ! c)]"
          by (auto simp: train_play_def Let_def split: prod.splits sum.splits)
        from cin have "length (remove1 c (hand s)) + 1 = length (hand s)"
          by (simp add: length_remove1) (cases "hand s"; simp)
        with ih h2 a2 show ?thesis by simp
      qed
    qed
  qed
qed

lemma GameState_init_round:
  "current_round (fst (GameState_init dk rounds target max_hand sv (h, g))) = 1"
  "num_rounds (fst (GameState_init dk rounds target max_hand sv (h, g))) = rounds"
  by (simp_all add: GameState_init_def initialize_draw_pile_def GameState_fields_def Let_def
      split: prod.splits)

lemma game_run_score_stop:
  "snd (Game_run [0, 0] 5 9 5 30 (single_store, example_rng, [Number 1]))
     = Inr (\<lparr>deck = [0, 0], num_rounds = 5, target_score = 9, max_hand_size = 5,
              current_round = 2, score = 9, spirit = 0, vitality = 26,
              current_phase = TURN_END, hand = [], draw_pile = [],
              discard_pile = [0, 0], exhaust_pile = [], buff_play_count = 0,
              buff_focus = 0, buff_mood = 0, new_buff_mood = False,
              game_log = [LogDrew3, LogVitalityCost 4, LogDamage 9 0 False 9, LogRoundEnd 1],
              is_first_shuffle = False, defense = Some 0\<rparr>,
            example_rng\<lparr>calls := 2\<rparr>, [])"
  by (simp add: Game_run_def GameState_init_def initialize_draw_pile_def random_random_def
      sort_reverse_def start.simps running_def game_cycle_def handle_turn_start_def
      handle_phase_start_def mood_decay_def numeral_3_eq_3 draw_step_def play_turn.simps
      display_hand_def play_card_def apply_effects_def apply_cost_def handle_turn_end_def
      reset_for_new_round_def GameState_fields_def single_store_def example_card_def
      example_effect_def example_rng_def Let_def)

lemma game_run_vitality_stop:
  "snd (Game_run [0, 0] 5 90 5 4 (single_store, example_rng, [Number 1]))
     = Inr (\<lparr>deck = [0, 0], num_rounds = 5, target_score = 90, max_hand_size = 5,
              current_round = 2, score = 9, spirit = 0, vitality = 0,
              current_phase = TURN_END, hand = [], draw_pile = [],
              discard_pile = [0, 0], exhaust_pile = [], buff_play_count = 0,
              buff_focus = 0, buff_mood = 0, new_buff_mood = False,
              game_log = [LogDrew3, LogVitalityCost 4, LogDamage 9 0 False 9, LogRoundEnd 1],
              is_first_shuffle = False, defense = Some 0\<rparr>,
            example_rng\<lparr>calls := 2\<rparr>, [])"
  by (simp add: Game_run_def GameState_init_def initialize_draw_pile_def random_random_def
      sort_reverse_def start.simps running_def game_cycle_def handle_turn_start_def
      handle_phase_start_def mood_decay_def numeral_3_eq_3 draw_step_def play_turn.simps
      display_hand_def play_card_def apply_effects_def apply_cost_def handle_turn_end_def
      reset_for_new_round_def GameState_fields_def single_store_def example_card_def
      example_effect_def example_rng_def Let_def)

lemma game_run_round_stop:
  "snd (Game_run [0, 0] 1 90 5 30 (single_store, example_rng, [Number 1]))
     = Inr (\<lparr>deck = [0, 0], num_rounds = 1, target_score = 90, max_hand_size = 5,
              current_round = 2, score = 9, spirit = 0, vitality = 26,
              current_phase = TURN_END, hand = [], draw_pile = [],
              discard_pile = [0, 0], exhaust_pile = [], buff_play_count = 0,
              buff_focus = 0, buff_mood = 0, new_buff_mood = False,
              game_log = [LogDrew3, LogVitalityCost 4, LogDamage 9 0 False 9, LogRoundEnd 1],
              is_first_shuffle = False, defense = Some 0\<rparr>,
            example_rng\<lparr>calls := 2\<rparr>, [])"
  by (simp add: Game_run_def GameState_init_def initialize_draw_pile_def random_random_def
      sort_reverse_def start.simps running_def game_cycle_def handle_turn_start_def
      handle_phase_start_def mood_decay_def numeral_3_eq_3 draw_step_def play_turn.simps
      display_hand_def play_card_def apply_effects_def apply_cost_def handle_turn_end_def
      reset_for_new_round_def GameState_fields_def single_store_def example_card_def
      example_effect_def example_rng_def Let_def)

lemma train_episode_score_stop:
  "(case snd (train_episode 5 9 (default_agent, single_store, example_rng)) of
      Inl e \<Rightarrow> False
    | Inr (a', s', g', acts', rews') \<Rightarrow>
        num_rounds s' = 5 \<and> target_score s' = 9 \<and>
        current_round s' = 2 \<and> score s' = 9 \<and> vitality s' = 26 \<and> hand s' = [] \<and>
        discard_pile s' = [0] \<and> acts' = [''a''] \<and> rews' = [9] \<and>
        stored_value (q_table a') (1, 0, 0, 30, 0, 0) ''a'' = 9 / 10)"
  by (simp add: train_episode_def GameState_init_def initialize_draw_pile_def random_random_def
      sort_reverse_def train_loop.simps running_def train_cycle_def
      handle_phase_start_def mood_decay_def numeral_3_eq_3 draw_step_def train_plays.simps
      choose_card_def ensure_row_def row_init_def row_get_def py_max_key_def
      train_play_def update_q_table_def get_state_key_def stored_value_def
      apply_effects_def apply_cost_def reset_for_new_round_def GameState_fields_def
      single_store_def example_card_def example_effect_def example_rng_def
      default_agent_def Agent_init_def Let_def)

lemma train_episode_round_stop:
  "(case snd (train_episode 1 90 (default_agent, single_store, example_rng)) of
      Inl e \<Rightarrow> False
    | Inr (a', s', g', acts', rews') \<Rightarrow>
        num_rounds s' = 1 \<and> target_score s' = 90 \<and>
        current_round s' = 2 \<and> score s' = 9 \<and> vitality s' = 26 \<and> hand s' = [] \<and>
        discard_pile s' = [0] \<and> acts' = [''a''] \<and> rews' = [9] \<and>
        stored_value (q_table a') (1, 0, 0, 30, 0, 0) ''a'' = 9 / 10)"
  by (simp add: train_episode_def GameState_init_def initialize_draw_pile_def random_random_def
      sort_reverse_def train_loop.simps running_def train_cycle_def
      handle_phase_start_def mood_decay_def numeral_3_eq_3 draw_step_def train_plays.simps
      choose_card_def ensure_row_def row_init_def row_get_def py_max_key_def
      train_play_def update_q_table_def get_state_key_def stored_value_def
      apply_effects_def apply_cost_def reset_for_new_round_def GameState_fields_def
      single_store_def example_card_def example_effect_def example_rng_def
      default_agent_def Agent_init_def Let_def)

lemma base_store_names:
  "length base_store = 8"
  "base_store ! 3 =
     \<lparr>name = [CHR 0xE5, CHR 0x8F, CHR 0x8C, CHR 0xE5, CHR 0x87, CHR 0xBB],
      effects = [\<lparr>eff_type = DAMAGE, eff_value = 9, eff_bypass_spirit = False\<rparr>,
                 \<lparr>eff_type = DAMAGE, eff_value = 9, eff_bypass_spirit = False\<rparr>],
      cost = 7, bypass_spirit = False, shuffle_priority = 0, exhaust = True,
      shuffle_random = 0\<rparr>"
  by (simp_all add: base_store_def create_base_deck_def CARDS_def Card_init_def
      EffectType_of_def effect_dict_def)

lemma exhaust_card_resolved:
  "apply_effects (base_store ! 3) exhaust_hand_state
     = Inr (exhaust_hand_state\<lparr>vitality := 23, score := 18\<rparr>,
            [LogVitalityCost 7, LogDamage 9 0 False 9, LogDamage 9 0 False 9])"
  by (simp add: base_store_names apply_effects_def apply_cost_def exhaust_hand_state_def
      GameState_fields_def)

lemma row_init_nonempty: "names \<noteq> [] \<Longrightarrow> row_init names \<noteq> []"
proof
  assume n: "names \<noteq> []" and e: "row_init names = []"
  from n have "map_of (row_init names) (hd names) = Some 0"
    by (simp add: row_init_def map_of_row_init)
  then show False by (simp add: e)
qed

lemma reset_shuffle_priority_random:
  "shuffle_random (reset_shuffle_priority pile h ! i) = shuffle_random (h ! i)"
proof (induction pile arbitrary: h)
  case Nil
  show ?case by simp
next
  case (Cons c rest)
  have "shuffle_random (h[c := (h ! c)\<lparr>shuffle_priority := 0\<rparr>] ! i) = shuffle_random (h ! i)"
    by (cases "c < length h") (simp_all add: nth_list_update list_update_beyond)
  with Cons show ?case by simp
qed

lemma turn_starts_mood:
  assumes "0 < buff_mood s" and "new_buff_mood s"
  shows "buff_mood (fst (turn_starts (Suc n) (s, g))) = max 0 (buff_mood s - int n) \<and>
         \<not> new_buff_mood (fst (turn_starts (Suc n) (s, g)))"
proof (induction n)
  case 0
  obtain s1 g1 l where h: "handle_phase_start (s, g) = (s1, g1, l)"
    by (cases "handle_phase_start (s, g)")
  from handle_phase_start_buffs(1,2) [of s g] h assms show ?case
    by (simp add: mood_decay_def)
next
  case (Suc n)
  obtain s0 g0 where t: "turn_starts (Suc n) (s, g) = (s0, g0)"
    by (cases "turn_starts (Suc n) (s, g)")
  obtain s1 g1 l where h: "handle_phase_start (s0, g0) = (s1, g1, l)"
    by (cases "handle_phase_start (s0, g0)")
  from Suc t have m: "buff_mood s0 = max 0 (buff_mood s - int n)" "\<not> new_buff_mood s0"
    by simp_all
  from handle_phase_start_buffs(1,2) [of s0 g0] h m
  have "buff_mood s1 = max 0 (buff_mood s - int (Suc n)) \<and> \<not> new_buff_mood s1"
    by (auto simp: mood_decay_def max_def)
  moreover have "turn_starts (Suc (Suc n)) (s, g) = (s1, g1)"
    using t h by (simp del: turn_starts.simps add: turn_starts.simps(2) [of "Suc n"])
  ultimately show ?case by simp
qed

section \<open>Claims\<close>

text \<open>
  C1 (the code departs from it): the episode loop of the trainer is to make the state
  transitions of the interactive game under the same card choices, a played card with the
  exhaust flag going to the exhaust pile and only another card to the discard pile. With
  the exhaust card of the base deck in hand, the play loop of the interactive game moves
  the played card to the exhaust pile; the play loop of the trainer, on the same state
  and with the same card chosen, moves it to the discard pile, from where a later
  reshuffle brings it back into the draw pile.
\<close>

theorem trainer_discards_exhaust_card:
  "exhaust (base_store ! (base_deck ! 6)) \<and>
   (case play_turn base_store (exhaust_hand_state, [Number 1]) of
      Inl e \<Rightarrow> False
    | Inr (s', inp') \<Rightarrow>
        score s' = 18 \<and> hand s' = [] \<and> exhaust_pile s' = [base_deck ! 6] \<and> discard_pile s' = []) \<and>
   (case train_plays base_store
           (base_agent, exhaust_hand_state, example_rng, get_state_key exhaust_hand_state, [], []) of
      Inl e \<Rightarrow> False
    | Inr (a', s', g', k', acts', rews') \<Rightarrow>
        score s' = 18 \<and> hand s' = [] \<and> exhaust_pile s' = [] \<and> discard_pile s' = [base_deck ! 6])"
proof -
  have six: "base_deck ! 6 = 3" by (simp add: create_base_deck_value)
  have hand: "hand exhaust_hand_state = [3]" "buff_play_count exhaust_hand_state = 1"
    "exhaust_pile exhaust_hand_state = []" "discard_pile exhaust_hand_state = []"
    "buff_mood exhaust_hand_state = 0"
    by (simp_all add: exhaust_hand_state_def six GameState_fields_def)
  have "exhaust (base_store ! 3)" by (simp add: base_store_names)
  moreover have "case play_turn base_store (exhaust_hand_state, [Number 1]) of
      Inl e \<Rightarrow> False
    | Inr (s', inp') \<Rightarrow>
        score s' = 18 \<and> hand s' = [] \<and> exhaust_pile s' = [3] \<and> discard_pile s' = []"
  proof -
    let ?s1 = "exhaust_hand_state\<lparr>vitality := 23, score := 18,
        game_log := game_log exhaust_hand_state
          @ [LogVitalityCost 7, LogDamage 9 0 False 9, LogDamage 9 0 False 9],
        hand := [], exhaust_pile := [3], buff_play_count := 0\<rparr>"
    have dh: "display_hand base_store exhaust_hand_state = None"
      by (simp add: display_hand_no_mood hand)
    have pc: "play_card base_store 3 exhaust_hand_state = Inr ?s1"
      by (simp add: play_card_def exhaust_card_resolved Let_def)
        (simp add: base_store_names hand)
    have "play_turn base_store (exhaust_hand_state, [Number 1]) = play_turn base_store (?s1, [])"
      by (simp add: play_turn.simps [of base_store exhaust_hand_state] hand dh pc)
    also have "\<dots> = Inr (?s1, [])"
      by (simp add: play_turn.simps [of base_store ?s1])
    finally show ?thesis by (simp add: hand)
  qed
  moreover have "case train_plays base_store
           (base_agent, exhaust_hand_state, example_rng, get_state_key exhaust_hand_state, [], []) of
      Inl e \<Rightarrow> False
    | Inr (a', s', g', k', acts', rews') \<Rightarrow>
        score s' = 18 \<and> hand s' = [] \<and> exhaust_pile s' = [] \<and> discard_pile s' = [3]"
  proof -
    let ?k = "get_state_key exhaust_hand_state"
    let ?s1 = "exhaust_hand_state\<lparr>vitality := 23, score := 18\<rparr>"
    let ?g1 = "example_rng\<lparr>calls := Suc 0\<rparr>"
    have ne: "get_state_key ?s1 \<noteq> ?k"
      by (simp add: get_state_key_def exhaust_hand_state_def GameState_fields_def)
    obtain a1 where ch: "choose_card base_store base_agent exhaust_hand_state example_rng
          = (Some 3, a1, ?g1)"
      and dk: "agent_deck a1 = base_deck"
      and tb: "q_table a1 (get_state_key ?s1) = None"
      using ne
      by (simp add: choose_card_def hand random_random_def example_rng_def base_agent_def
          Agent_init_def ensure_row_def py_max_key_def Let_def)
    from dk tb have "next_row_values base_store a1 (get_state_key ?s1) \<noteq> []"
      by (simp add: next_row_values_def create_base_deck_value row_init_nonempty)
    from update_q_table_total [OF this]
    obtain a2 where up: "update_q_table base_store a1 ?k (name (base_store ! 3)) 18
          (get_state_key ?s1) = Inr a2"
      by blast
    have tp: "train_play base_store 3 (a1, exhaust_hand_state, ?g1, ?k, [], [])
        = Inr (a2, ?s1\<lparr>hand := [], discard_pile := [3], buff_play_count := 0\<rparr>, ?g1,
               get_state_key ?s1, [name (base_store ! 3)], [18])"
      by (simp add: train_play_def exhaust_card_resolved up hand)
    show ?thesis
      by (simp add: train_plays.simps [of base_store base_agent exhaust_hand_state] hand ch tp)
        (simp add: train_plays.simps hand)
  qed
  ultimately show ?thesis unfolding six by simp
qed

text \<open>
  C2 (as stated, fails): a draw of one card with the hand at its cap and a non-empty draw
  pile removes the top card of the draw pile without adding it to the hand. With a hand
  of two at a cap of two and the draw pile \<open>[2, 3]\<close>, the draw pile is \<open>[2, 3]\<close> afterwards.
\<close>

theorem draw_at_cap_counterexample:
  "\<not> (draw_pile (fst (draw_cards 1 (capped_state, example_rng))) = butlast (draw_pile capped_state)
      \<and> hand (fst (draw_cards 1 (capped_state, example_rng))) = hand capped_state)"
  by (simp add: draw_step_def capped_state_def GameState_fields_def)

text \<open>
  C2 (amended): when the hand already holds \<open>max_hand_size\<close> cards (or more) and the draw
  pile is not empty, a draw of any number of cards changes nothing: the guard
  \<^verbatim>\<open>if len(self.hand) < self.max_hand_size\<close> is around the \<^verbatim>\<open>pop\<close> as well, so the draw is
  blocked and the draw pile, the hand and the generator are as before.
\<close>

theorem draw_at_cap_blocked:
  "max_hand_size s \<le> int (length (hand s)) \<Longrightarrow> draw_pile s \<noteq> [] \<Longrightarrow>
     draw_cards n (s, g) = (s, g)"
proof (induction n)
  case 0
  show ?case by simp
next
  case (Suc n)
  from Suc.prems have "draw_step (s, g) = Some (s, g)"
    by (simp add: draw_step_def)
  with Suc show ?case by simp
qed

theorem draw_at_cap_blocked_witness:
  "max_hand_size capped_state \<le> int (length (hand capped_state)) \<and>
   draw_pile capped_state = [2, 3] \<and>
   draw_cards 3 (capped_state, example_rng) = (capped_state, example_rng)"
  using draw_at_cap_blocked [of capped_state 3 example_rng]
  by (simp add: capped_state_def GameState_fields_def)

text \<open>
  C3 (as stated, fails): when a draw finds the draw pile empty and the discard pile not,
  the rebuilt pile is the discard pile under the subsequent-shuffle rule (a fresh random
  value for each card, descending by it). With the discard pile \<open>[0, 1]\<close>, the rebuilt
  pile is \<open>[1, 0]\<close> where the rule gives \<open>[0, 1]\<close>, and it is not in descending order of
  the values that the cards hold either.
\<close>

theorem refill_shuffle_counterexample:
  "\<not> (draw_pile (fst (draw_cards 1 (refill_state, example_rng)))
        = fst (subsequent_shuffle_rule (discard_pile refill_state) (refill_store, example_rng))
      \<or> sorted (map (\<lambda>x. - shuffle_random (refill_store ! x))
                  (draw_pile (fst (draw_cards 1 (refill_state, example_rng))))))"
  by (simp add: draw_step_def refill_state_def refill_store_def GameState_fields_def
      random_shuffle_def randbelow_def example_rng_def subsequent_shuffle_rule_def
      random_random_def sort_reverse_def example_card_def)

text \<open>
  C3 (amended): when an iteration of a draw finds the draw pile empty and the discard pile
  not, all cards of the discard pile move into the draw pile, which is rebuilt by the
  library shuffle \<^verbatim>\<open>random.shuffle\<close>: a permutation of the former discard pile that is a
  function of the generator's integer draws. Then the last card of the rebuilt pile goes
  to the hand if the hand is below its cap, and the draw goes on with its remaining
  iterations. No random value is assigned to a card and no field of a card is read: the
  draw has no access to the card objects.
\<close>

theorem refill_by_library_shuffle:
  "draw_pile s = [] \<Longrightarrow> discard_pile s \<noteq> [] \<Longrightarrow>
     (case draw_step (s, g) of
        None \<Rightarrow> False
      | Some (s', g') \<Rightarrow>
          discard_pile s' = [] \<and>
          (\<forall>n. draw_cards (Suc n) (s, g) = draw_cards n (s', g')) \<and>
          g' = snd (random_shuffle (discard_pile s) g) \<and>
          mset (fst (random_shuffle (discard_pile s) g)) = mset (discard_pile s) \<and>
          (if int (length (hand s)) < max_hand_size s
           then draw_pile s' = butlast (fst (random_shuffle (discard_pile s) g)) \<and>
                hand s' = hand s @ [last (fst (random_shuffle (discard_pile s) g))]
           else draw_pile s' = fst (random_shuffle (discard_pile s) g) \<and> hand s' = hand s))"
proof -
  assume e: "draw_pile s = []" and d: "discard_pile s \<noteq> []"
  obtain pile g1 where r: "random_shuffle (discard_pile s) g = (pile, g1)"
    by (cases "random_shuffle (discard_pile s) g")
  from random_shuffle_mset [of "discard_pile s" g] r
  have m: "mset pile = mset (discard_pile s)" by simp
  from e d r m show ?thesis
    by (simp add: draw_step_def Let_def)
qed

theorem refill_by_library_shuffle_witness:
  "draw_pile refill_state = [] \<and> discard_pile refill_state = [0, 1] \<and>
   (case draw_step (refill_state, example_rng) of
      None \<Rightarrow> False
    | Some (s', g') \<Rightarrow>
        discard_pile s' = [] \<and> draw_pile s' = [1, 0] \<and> hand s' = [2, 3] \<and> calls g' = 1)"
  using refill_by_library_shuffle [of refill_state example_rng]
  by (simp add: draw_step_def refill_state_def GameState_fields_def
      random_shuffle_def randbelow_def example_rng_def)

text \<open>
  C4 (the code departs from it): the deck is to have as many slots as the counts of the
  card dictionaries add up to, each copy an object of its own, so that a write to one
  copy's random value is not seen through another. The deck of \<^verbatim>\<open>create_base_deck\<close> has
  that many slots (11), but the two slots of a dictionary of count 2 hold one and the same
  card object: the slots 0 and 1 are the same reference, and
  a random value written through slot 0 is the value read through slot 1. In the first
  shuffle of a game, the value drawn for slot 0 (the generator's call 0) is overwritten by
  the value drawn for slot 1 (call 1), and both slots sort with that one value.
\<close>

theorem deck_copies_alias:
  "create_base_deck [] = Inr (base_deck, base_store) \<and>
   int (length base_deck) = (\<Sum>d\<leftarrow>CARDS. case c_count d of None \<Rightarrow> 1 | Some n \<Rightarrow> n) \<and>
   base_deck ! 0 = base_deck ! 1 \<and>
   shuffle_random (base_store ! (base_deck ! 1)) = 0 \<and>
   shuffle_random
     ((base_store[base_deck ! 0 := (base_store ! (base_deck ! 0))\<lparr>shuffle_random := 1 / 2\<rparr>])
        ! (base_deck ! 1)) = 1 / 2 \<and>
   (case GameState_init base_deck 9 90 5 30 (base_store, counting_rng) of
      (s, h1, g1) \<Rightarrow>
        uniform counting_rng 0 \<noteq> uniform counting_rng 1 \<and>
        shuffle_random (h1 ! (base_deck ! 0)) = uniform counting_rng 1 \<and>
        shuffle_random (h1 ! (base_deck ! 1)) = uniform counting_rng 1)"
proof -
  have "shuffle_random (base_store ! 0) = 0"
    by (simp add: base_store_def create_base_deck_def CARDS_def Card_init_def
      EffectType_of_def effect_dict_def)
  moreover have "(\<Sum>d\<leftarrow>CARDS. case c_count d of None \<Rightarrow> 1 | Some n \<Rightarrow> n) = (11::int)"
    by (simp add: CARDS_def)
  moreover have "case GameState_init base_deck 9 90 5 30 (base_store, counting_rng) of
      (s, h1, g1) \<Rightarrow>
        uniform counting_rng 0 \<noteq> uniform counting_rng 1 \<and>
        shuffle_random (h1 ! (base_deck ! 0)) = uniform counting_rng 1 \<and>
        shuffle_random (h1 ! (base_deck ! 1)) = uniform counting_rng 1"
    by (simp add: GameState_init_def initialize_draw_pile_def GameState_fields_def Let_def
      reset_shuffle_priority_random create_base_deck_value random_random_def counting_rng_def
      base_store_names(1) split: prod.splits)
  ultimately show ?thesis
    by (simp add: create_base_deck_value base_store_names(1))
qed

text \<open>
  C5 (as stated, fails): for every play of a card of cost \<open>c\<close> that does not bypass spirit,
  on any state with spirit \<open>s\<close> and vitality \<open>v\<close>, spirit becomes \<open>max (s - c) 0\<close> and vitality
  \<open>v - max (c - s) 0\<close>. On the state with spirit \<open>-2\<close> a card of cost 3 leaves spirit at
  \<open>-2\<close> and takes 3 from vitality: the guard \<^verbatim>\<open>if game_state.spirit > 0\<close> skips the spirit
  step.
\<close>

theorem cost_resolution_counterexample:
  "\<not> (spirit (fst (apply_cost (example_card 3 False False []) drained_state))
        = max (spirit drained_state - cost (example_card 3 False False [])) 0
      \<and> vitality (fst (apply_cost (example_card 3 False False []) drained_state))
        = vitality drained_state
            - max (cost (example_card 3 False False []) - spirit drained_state) 0)"
  by (simp add: apply_cost_def example_card_def drained_state_fields)

text \<open>
  C5 (amended): for a cost \<open>c \<ge> 0\<close> and a spirit \<open>s \<ge> 0\<close>, a card that does not bypass spirit
  leaves spirit at \<open>max (s - c) 0\<close> and vitality at \<open>v - max (c - s) 0\<close>; a card that bypasses
  spirit leaves spirit unchanged and vitality at \<open>v - c\<close>, whatever \<open>c\<close>, \<open>s\<close>, \<open>v\<close> are.
  The effects are applied to the state that the cost resolution returns, and vitality has
  no floor.
\<close>

theorem cost_resolution:
  "(\<not> bypass_spirit c \<and> 0 \<le> cost c \<and> 0 \<le> spirit s \<longrightarrow>
      spirit (fst (apply_cost c s)) = max (spirit s - cost c) 0 \<and>
      vitality (fst (apply_cost c s)) = vitality s - max (cost c - spirit s) 0) \<and>
   (bypass_spirit c \<longrightarrow>
      spirit (fst (apply_cost c s)) = spirit s \<and>
      vitality (fst (apply_cost c s)) = vitality s - cost c) \<and>
   apply_effects c s = apply_effects_loop (effects c) (apply_cost c s)"
  by (auto simp: apply_cost_def apply_effects_def Let_def max_def min_def)

theorem cost_resolution_witness:
  "spirit (fst (apply_cost (example_card 4 False False [])
                  ((GameState_fields [] 9 90 5 30)\<lparr>spirit := 2\<rparr>))) = 0 \<and>
   vitality (fst (apply_cost (example_card 4 False False [])
                    ((GameState_fields [] 9 90 5 30)\<lparr>spirit := 2\<rparr>))) = 28 \<and>
   spirit (fst (apply_cost (example_card 6 True False [])
                  ((GameState_fields [] 9 90 5 3)\<lparr>spirit := 10\<rparr>))) = 10 \<and>
   vitality (fst (apply_cost (example_card 6 True False [])
                    ((GameState_fields [] 9 90 5 3)\<lparr>spirit := 10\<rparr>))) = - 3"
  using cost_resolution [of "example_card 4 False False []"
      "(GameState_fields [] 9 90 5 30)\<lparr>spirit := 2\<rparr>"]
    cost_resolution [of "example_card 6 True False []"
      "(GameState_fields [] 9 90 5 3)\<lparr>spirit := 10\<rparr>"]
  by (simp add: example_card_def GameState_fields_def)




text \<open>
  C7: a mood gain that takes the mood buff from exactly 0 to a positive value marks it as
  newly acquired. A turn start with mood \<open>> 0\<close> and the mark set clears the mark and keeps
  the mood; a turn start with mood \<open>> 0\<close> and the mark clear takes exactly 1 from the mood
  and leaves the mark clear; so of \<open>n + 1\<close> turn starts in a row after the gain, the first
  skips and each later one decrements while the mood is positive, which leaves a mood of
  \<open>max 0 (m - n)\<close>. Between turn starts only a mood effect changes the mood or the mark
  (the cost, the other effects and the end of the turn do not), and only a gain from
  exactly 0 sets the mark. Every turn start resets the remaining plays to 1.
\<close>

theorem mood_decay_exemption:
  "(eff_type e = MOOD \<and> buff_mood s = 0 \<and> 0 < eff_value e \<longrightarrow>
      (\<exists>s1 l1. apply_effect e (s, l) = Inr (s1, l1) \<and>
         new_buff_mood s1 \<and> buff_mood s1 = eff_value e)) \<and>
   (0 < buff_mood s \<and> new_buff_mood s \<longrightarrow>
      buff_mood (fst (handle_phase_start (s, g))) = buff_mood s \<and>
      \<not> new_buff_mood (fst (handle_phase_start (s, g))) \<and>
      buff_mood (fst (handle_phase_start (fst (handle_phase_start (s, g)), g2)))
        = buff_mood s - 1 \<and>
      buff_mood (fst (turn_starts (Suc n) (s, g))) = max 0 (buff_mood s - int n)) \<and>
   (0 < buff_mood s \<and> \<not> new_buff_mood s \<longrightarrow>
      buff_mood (fst (handle_phase_start (s, g))) = buff_mood s - 1 \<and>
      \<not> new_buff_mood (fst (handle_phase_start (s, g)))) \<and>
   buff_play_count (fst (handle_phase_start (s, g))) = 1 \<and>
   (eff_type e \<noteq> MOOD \<longrightarrow>
      (case apply_effect e (s, l) of
         Inl x \<Rightarrow> eff_type e = DAMAGE \<and> 0 < buff_mood s
       | Inr (s1, l1) \<Rightarrow> buff_mood s1 = buff_mood s \<and> new_buff_mood s1 = new_buff_mood s)) \<and>
   (apply_effect e (s, l) = Inr (s', l') \<and> new_buff_mood s' \<and> \<not> new_buff_mood s \<longrightarrow>
      eff_type e = MOOD \<and> buff_mood s = 0 \<and> 0 < eff_value e) \<and>
   buff_mood (fst (apply_cost c s)) = buff_mood s \<and>
   new_buff_mood (fst (apply_cost c s)) = new_buff_mood s \<and>
   buff_mood (reset_for_new_round s) = buff_mood s \<and>
   new_buff_mood (reset_for_new_round s) = new_buff_mood s"
proof -
  have gain: "eff_type e = MOOD \<and> buff_mood s = 0 \<and> 0 < eff_value e \<longrightarrow>
      (\<exists>s1 l1. apply_effect e (s, l) = Inr (s1, l1) \<and>
         new_buff_mood s1 \<and> buff_mood s1 = eff_value e)"
    by (simp add: Let_def)
  have skip: "buff_mood (fst (handle_phase_start (s, g))) = buff_mood s \<and>
      \<not> new_buff_mood (fst (handle_phase_start (s, g))) \<and>
      buff_mood (fst (handle_phase_start (fst (handle_phase_start (s, g)), g2)))
        = buff_mood s - 1 \<and>
      buff_mood (fst (turn_starts (Suc n) (s, g))) = max 0 (buff_mood s - int n)"
    if "0 < buff_mood s \<and> new_buff_mood s"
  proof -
    let ?s1 = "fst (handle_phase_start (s, g))"
    from that have a: "buff_mood ?s1 = buff_mood s" "\<not> new_buff_mood ?s1"
      by (simp_all add: handle_phase_start_buffs mood_decay_def)
    with that have "buff_mood (fst (handle_phase_start (?s1, g2))) = buff_mood s - 1"
      by (simp add: handle_phase_start_buffs mood_decay_def)
    moreover from that turn_starts_mood [of s n g]
    have "buff_mood (fst (turn_starts (Suc n) (s, g))) = max 0 (buff_mood s - int n)"
      by blast
    ultimately show ?thesis using a by simp
  qed
  have decay: "0 < buff_mood s \<and> \<not> new_buff_mood s \<longrightarrow>
      buff_mood (fst (handle_phase_start (s, g))) = buff_mood s - 1 \<and>
      \<not> new_buff_mood (fst (handle_phase_start (s, g)))"
    by (simp add: handle_phase_start_buffs mood_decay_def)
  have other: "eff_type e \<noteq> MOOD \<longrightarrow>
      (case apply_effect e (s, l) of
         Inl x \<Rightarrow> eff_type e = DAMAGE \<and> 0 < buff_mood s
       | Inr (s1, l1) \<Rightarrow> buff_mood s1 = buff_mood s \<and> new_buff_mood s1 = new_buff_mood s)"
    by (auto simp: Let_def split: sum.splits)
  have only: "apply_effect e (s, l) = Inr (s', l') \<and> new_buff_mood s' \<and> \<not> new_buff_mood s \<longrightarrow>
      eff_type e = MOOD \<and> buff_mood s = 0 \<and> 0 < eff_value e"
    by (auto simp: Let_def split: if_splits sum.splits)
  have frame: "buff_mood (fst (apply_cost c s)) = buff_mood s"
    "new_buff_mood (fst (apply_cost c s)) = new_buff_mood s"
    "buff_mood (reset_for_new_round s) = buff_mood s"
    "new_buff_mood (reset_for_new_round s) = new_buff_mood s"
    by (simp_all add: apply_cost_def reset_for_new_round_def Let_def split: prod.splits)
  from gain skip decay other only frame handle_phase_start_buffs(3) [of s g]
  show ?thesis by blast
qed

theorem mood_decay_exemption_witness:
  "(case apply_effect (example_effect MOOD 3) (GameState_fields [] 9 90 5 30, []) of
      Inl x \<Rightarrow> False
    | Inr (s1, l1) \<Rightarrow> new_buff_mood s1 \<and> buff_mood s1 = 3) \<and>
   buff_mood (fst (handle_phase_start
      ((GameState_fields [] 9 90 5 30)\<lparr>buff_mood := 3, new_buff_mood := True\<rparr>, example_rng))) = 3 \<and>
   buff_mood (fst (handle_phase_start (fst (handle_phase_start
      ((GameState_fields [] 9 90 5 30)\<lparr>buff_mood := 3, new_buff_mood := True\<rparr>, example_rng)),
      example_rng))) = 2 \<and>
   buff_mood (fst (turn_starts 3
      ((GameState_fields [] 9 90 5 30)\<lparr>buff_mood := 3, new_buff_mood := True\<rparr>, example_rng))) = 1 \<and>
   buff_mood (fst (turn_starts 6
      ((GameState_fields [] 9 90 5 30)\<lparr>buff_mood := 3, new_buff_mood := True\<rparr>, example_rng))) = 0 \<and>
   buff_play_count (fst (handle_phase_start
      ((GameState_fields [] 9 90 5 30)\<lparr>buff_mood := 3, new_buff_mood := True\<rparr>, example_rng))) = 1"
proof -
  let ?s = "(GameState_fields [] 9 90 5 30)\<lparr>buff_mood := 3, new_buff_mood := True\<rparr>"
  have three: "(3::nat) = Suc 2" and six: "(6::nat) = Suc 5" by simp_all
  have m: "0 < buff_mood ?s \<and> new_buff_mood ?s" "buff_mood ?s = 3"
    by (simp_all add: GameState_fields_def)
  from mood_decay_exemption [where e = "example_effect MOOD 3"
      and s = "GameState_fields [] 9 90 5 30" and l = "[]"]
  have "case apply_effect (example_effect MOOD 3) (GameState_fields [] 9 90 5 30, []) of
      Inl x \<Rightarrow> False
    | Inr (s1, l1) \<Rightarrow> new_buff_mood s1 \<and> buff_mood s1 = 3"
    by (auto simp: example_effect_def GameState_fields_def)
  moreover from m mood_decay_exemption [where s = ?s and g = example_rng and ?g2.0 = example_rng
      and n = 2]
  have "buff_mood (fst (handle_phase_start (?s, example_rng))) = 3"
    "buff_mood (fst (handle_phase_start (fst (handle_phase_start (?s, example_rng)), example_rng))) = 2"
    "buff_mood (fst (turn_starts 3 (?s, example_rng))) = 1"
    "buff_play_count (fst (handle_phase_start (?s, example_rng))) = 1"
    unfolding three by simp_all
  moreover from m mood_decay_exemption [where s = ?s and g = example_rng and n = 5]
  have "buff_mood (fst (turn_starts 6 (?s, example_rng))) = 0"
    unfolding six by simp
  ultimately show ?thesis by simp
qed




text \<open>
  C9: an episode terminates, the interactive one and the trainer's: the two main loops
  and the two play loops are total functions, by the measures given with them (the
  interactive game reads a finite list of input lines; the letter q or the end of the
  input ends the run with an error value, as an exception of a card's effects does). A
  main loop started in a state \<open>s\<close> is some number \<open>n\<close> of whole cycles, one after the other,
  with \<open>n \<le> num_rounds s + 1 - current_round s\<close>; from a fresh game state, where the round
  is 1, that is at most the round limit. Each of the cycles starts in a state whose round
  is within the limit, whose score is below the target and whose vitality is positive.
  The loop stops in a state whose round is beyond the limit, or whose score has reached
  the target, or whose vitality is 0 or less; it runs no cycle when one of the three
  holds at the start, whatever the round is; and when none of them holds at the start it
  runs one whole cycle before it looks again. A play loop never makes the hand longer, and
  in the trainer every play takes exactly one card from the hand.
\<close>

theorem episode_terminates:
  "(\<exists>n\<le>nat (num_rounds s + 1 - current_round s).
      start h (s, g, inp) = (then_cycle (game_cycle h) ^^ n) (Inr (s, g, inp)) \<and>
      (\<forall>k<n. case (then_cycle (game_cycle h) ^^ k) (Inr (s, g, inp)) of
                Inl e \<Rightarrow> False
              | Inr (sk, gk, inpk) \<Rightarrow>
                  current_round sk \<le> num_rounds sk \<and> score sk < target_score sk \<and>
                  0 < vitality sk)) \<and>
   (start h (s, g, inp) = Inr (s', g', inp') \<longrightarrow>
      num_rounds s' < current_round s' \<or> target_score s' \<le> score s' \<or> vitality s' \<le> 0) \<and>
   (num_rounds s < current_round s \<or> target_score s \<le> score s \<or> vitality s \<le> 0 \<longrightarrow>
      start h (s, g, inp) = Inr (s, g, inp)) \<and>
   (current_round s \<le> num_rounds s \<and> score s < target_score s \<and> 0 < vitality s \<longrightarrow>
      start h (s, g, inp) = then_cycle (start h) (game_cycle h (s, g, inp))) \<and>
   (play_turn h (s, inp) = Inr (s', inp') \<longrightarrow> length (hand s') \<le> length (hand s)) \<and>
   (\<exists>n\<le>nat (num_rounds s + 1 - current_round s).
      train_loop h (a, s, g, acts, rews)
        = (then_cycle (train_cycle h) ^^ n) (Inr (a, s, g, acts, rews)) \<and>
      (\<forall>k<n. case (then_cycle (train_cycle h) ^^ k) (Inr (a, s, g, acts, rews)) of
                Inl e \<Rightarrow> False
              | Inr (ak, sk, gk, actsk, rewsk) \<Rightarrow>
                  current_round sk \<le> num_rounds sk \<and> score sk < target_score sk \<and>
                  0 < vitality sk)) \<and>
   (train_loop h (a, s, g, acts, rews) = Inr (a', s', g', acts', rews') \<longrightarrow>
      num_rounds s' < current_round s' \<or> target_score s' \<le> score s' \<or> vitality s' \<le> 0) \<and>
   (num_rounds s < current_round s \<or> target_score s \<le> score s \<or> vitality s \<le> 0 \<longrightarrow>
      train_loop h (a, s, g, acts, rews) = Inr (a, s, g, acts, rews)) \<and>
   (current_round s \<le> num_rounds s \<and> score s < target_score s \<and> 0 < vitality s \<longrightarrow>
      train_loop h (a, s, g, acts, rews)
        = then_cycle (train_loop h) (train_cycle h (a, s, g, acts, rews))) \<and>
   (train_plays h (a, s, g, k, acts, rews) = Inr (a', s', g', k', acts', rews') \<longrightarrow>
      length (hand s') \<le> length (hand s) \<and>
      length acts' + length (hand s') = length acts + length (hand s)) \<and>
   (case GameState_init dk rounds target max_hand sv (h, g) of
      (s0, h1, g1) \<Rightarrow>
        \<exists>n\<le>nat rounds.
          snd (Game_run dk rounds target max_hand sv (h, g, inp))
            = (then_cycle (game_cycle h1) ^^ n) (Inr (s0, g1, inp))) \<and>
   (case GameState_init (agent_deck a) rounds target 5 30 (h, g) of
      (s0, h1, g1) \<Rightarrow>
        \<exists>n\<le>nat rounds.
          snd (train_episode rounds target (a, h, g))
            = (then_cycle (train_cycle h1) ^^ n) (Inr (a, s0, g1, [], [])))"
proof -
  have guard: "running x = (current_round x \<le> num_rounds x \<and> score x < target_score x \<and>
      0 < vitality x)" for x
    by (simp add: running_def)
  have stopped: "(\<not> running x) = (num_rounds x < current_round x \<or> target_score x \<le> score x \<or>
      vitality x \<le> 0)" for x
    by (auto simp: running_def)
  have game: "case GameState_init dk rounds target max_hand sv (h, g) of
      (s0, h1, g1) \<Rightarrow>
        \<exists>n\<le>nat rounds.
          snd (Game_run dk rounds target max_hand sv (h, g, inp))
            = (then_cycle (game_cycle h1) ^^ n) (Inr (s0, g1, inp))"
  proof -
    obtain s0 h1 g1 where i: "GameState_init dk rounds target max_hand sv (h, g) = (s0, h1, g1)"
      by (cases "GameState_init dk rounds target max_hand sv (h, g)")
    from GameState_init_round [of dk rounds target max_hand sv h g] i
    have "nat (num_rounds s0 + 1 - current_round s0) = nat rounds" by simp
    with start_cycles [of s0 h1 g1 inp] obtain n where "n \<le> nat rounds"
      "start h1 (s0, g1, inp) = (then_cycle (game_cycle h1) ^^ n) (Inr (s0, g1, inp))"
      by auto
    with i show ?thesis by (auto simp: Game_run_def)
  qed
  have train: "case GameState_init (agent_deck a) rounds target 5 30 (h, g) of
      (s0, h1, g1) \<Rightarrow>
        \<exists>n\<le>nat rounds.
          snd (train_episode rounds target (a, h, g))
            = (then_cycle (train_cycle h1) ^^ n) (Inr (a, s0, g1, [], []))"
  proof -
    obtain s0 h1 g1 where i: "GameState_init (agent_deck a) rounds target 5 30 (h, g) = (s0, h1, g1)"
      by (cases "GameState_init (agent_deck a) rounds target 5 30 (h, g)")
    from GameState_init_round [of "agent_deck a" rounds target 5 30 h g] i
    have "nat (num_rounds s0 + 1 - current_round s0) = nat rounds" by simp
    with train_loop_cycles [of s0 h1 a g1 "[]" "[]"] obtain n where "n \<le> nat rounds"
      "train_loop h1 (a, s0, g1, [], []) = (then_cycle (train_cycle h1) ^^ n) (Inr (a, s0, g1, [], []))"
      by auto
    with i show ?thesis by (auto simp: train_episode_def)
  qed
  have stop: "num_rounds s < current_round s \<or> target_score s \<le> score s \<or> vitality s \<le> 0 \<longrightarrow>
      start h (s, g, inp) = Inr (s, g, inp)"
    "num_rounds s < current_round s \<or> target_score s \<le> score s \<or> vitality s \<le> 0 \<longrightarrow>
      train_loop h (a, s, g, acts, rews) = Inr (a, s, g, acts, rews)"
    unfolding stopped [symmetric] by (simp_all add: start.simps train_loop.simps)
  have go: "current_round s \<le> num_rounds s \<and> score s < target_score s \<and> 0 < vitality s \<longrightarrow>
      start h (s, g, inp) = then_cycle (start h) (game_cycle h (s, g, inp))"
    "current_round s \<le> num_rounds s \<and> score s < target_score s \<and> 0 < vitality s \<longrightarrow>
      train_loop h (a, s, g, acts, rews)
        = then_cycle (train_loop h) (train_cycle h (a, s, g, acts, rews))"
    unfolding guard [symmetric]
    by (simp_all add: start.simps [of h s g inp] train_loop.simps [of h a s g acts rews]
        then_cycle_def)
  have fin: "start h (s, g, inp) = Inr (s', g', inp') \<longrightarrow>
      num_rounds s' < current_round s' \<or> target_score s' \<le> score s' \<or> vitality s' \<le> 0"
    "train_loop h (a, s, g, acts, rews) = Inr (a', s', g', acts', rews') \<longrightarrow>
      num_rounds s' < current_round s' \<or> target_score s' \<le> score s' \<or> vitality s' \<le> 0"
    unfolding stopped [symmetric]
    using start_final [of h s g inp s' g' inp']
      train_loop_final [of h a s g acts rews a' s' g' acts' rews'] by blast+
  have plays: "play_turn h (s, inp) = Inr (s', inp') \<longrightarrow> length (hand s') \<le> length (hand s)"
    "train_plays h (a, s, g, k, acts, rews) = Inr (a', s', g', k', acts', rews') \<longrightarrow>
      length (hand s') \<le> length (hand s) \<and>
      length acts' + length (hand s') = length acts + length (hand s)"
    using play_turn_hand [of h s inp s' inp']
      train_plays_hand [of h a s g k acts rews a' s' g' k' acts' rews'] by blast+
  show ?thesis
    by (intro conjI start_cycles [unfolded guard] train_loop_cycles [unfolded guard]
        stop go fin plays game train)
qed

theorem episode_terminates_witness:
  "(case snd (Game_run [0, 0] 5 9 5 30 (single_store, example_rng, [Number 1])) of
      Inl e \<Rightarrow> False
    | Inr (s', g', inp') \<Rightarrow>
        num_rounds s' = 5 \<and> current_round s' = 2 \<and> target_score s' = 9 \<and> score s' = 9 \<and>
        vitality s' = 26 \<and> start single_store (s', g', inp') = Inr (s', g', inp')) \<and>
   (case snd (Game_run [0, 0] 5 90 5 4 (single_store, example_rng, [Number 1])) of
      Inl e \<Rightarrow> False
    | Inr (s', g', inp') \<Rightarrow>
        num_rounds s' = 5 \<and> current_round s' = 2 \<and> target_score s' = 90 \<and> score s' = 9 \<and>
        vitality s' = 0 \<and> start single_store (s', g', inp') = Inr (s', g', inp')) \<and>
   (case snd (Game_run [0, 0] 1 90 5 30 (single_store, example_rng, [Number 1])) of
      Inl e \<Rightarrow> False
    | Inr (s', g', inp') \<Rightarrow>
        num_rounds s' = 1 \<and> current_round s' = 2 \<and> target_score s' = 90 \<and> score s' = 9 \<and>
        vitality s' = 26 \<and> start single_store (s', g', inp') = Inr (s', g', inp')) \<and>
   (case snd (train_episode 5 9 (default_agent, single_store, example_rng)) of
      Inl e \<Rightarrow> False
    | Inr (a', s', g', acts', rews') \<Rightarrow>
        num_rounds s' = 5 \<and> current_round s' = 2 \<and> target_score s' = 9 \<and> score s' = 9 \<and>
        vitality s' = 26 \<and> acts' = [''a''] \<and>
        train_loop single_store (a', s', g', acts', rews') = Inr (a', s', g', acts', rews')) \<and>
   (case snd (train_episode 1 90 (default_agent, single_store, example_rng)) of
      Inl e \<Rightarrow> False
    | Inr (a', s', g', acts', rews') \<Rightarrow>
        num_rounds s' = 1 \<and> current_round s' = 2 \<and> target_score s' = 90 \<and> score s' = 9 \<and>
        vitality s' = 26 \<and> acts' = [''a''] \<and>
        train_loop single_store (a', s', g', acts', rews') = Inr (a', s', g', acts', rews'))"
proof -
  have game: "start single_store (x, g, inp) = Inr (x, g, inp)"
    if "num_rounds x < current_round x \<or> target_score x \<le> score x \<or> vitality x \<le> 0"
    for x g inp
    using that episode_terminates [where s = x and h = single_store and g = g and inp = inp]
    by blast
  have train: "train_loop single_store (a, x, g, acts, rews) = Inr (a, x, g, acts, rews)"
    if "num_rounds x < current_round x \<or> target_score x \<le> score x \<or> vitality x \<le> 0"
    for a x g acts rews
    using that episode_terminates [where s = x and h = single_store and g = g and a = a
        and acts = acts and rews = rews]
    by blast
  have "case snd (Game_run [0, 0] 5 9 5 30 (single_store, example_rng, [Number 1])) of
      Inl e \<Rightarrow> False
    | Inr (s', g', inp') \<Rightarrow>
        num_rounds s' = 5 \<and> current_round s' = 2 \<and> target_score s' = 9 \<and> score s' = 9 \<and>
        vitality s' = 26 \<and> start single_store (s', g', inp') = Inr (s', g', inp')"
    unfolding game_run_score_stop by (simp add: game)
  moreover have "case snd (Game_run [0, 0] 5 90 5 4 (single_store, example_rng, [Number 1])) of
      Inl e \<Rightarrow> False
    | Inr (s', g', inp') \<Rightarrow>
        num_rounds s' = 5 \<and> current_round s' = 2 \<and> target_score s' = 90 \<and> score s' = 9 \<and>
        vitality s' = 0 \<and> start single_store (s', g', inp') = Inr (s', g', inp')"
    unfolding game_run_vitality_stop by (simp add: game)
  moreover have "case snd (Game_run [0, 0] 1 90 5 30 (single_store, example_rng, [Number 1])) of
      Inl e \<Rightarrow> False
    | Inr (s', g', inp') \<Rightarrow>
        num_rounds s' = 1 \<and> current_round s' = 2 \<and> target_score s' = 90 \<and> score s' = 9 \<and>
        vitality s' = 26 \<and> start single_store (s', g', inp') = Inr (s', g', inp')"
    unfolding game_run_round_stop by (simp add: game)
  moreover from train_episode_score_stop
  have "case snd (train_episode 5 9 (default_agent, single_store, example_rng)) of
      Inl e \<Rightarrow> False
    | Inr (a', s', g', acts', rews') \<Rightarrow>
        num_rounds s' = 5 \<and> current_round s' = 2 \<and> target_score s' = 9 \<and> score s' = 9 \<and>
        vitality s' = 26 \<and> acts' = [''a''] \<and>
        train_loop single_store (a', s', g', acts', rews') = Inr (a', s', g', acts', rews')"
    by (auto simp: train split: sum.splits)
  moreover from train_episode_round_stop
  have "case snd (train_episode 1 90 (default_agent, single_store, example_rng)) of
      Inl e \<Rightarrow> False
    | Inr (a', s', g', acts', rews') \<Rightarrow>
        num_rounds s' = 1 \<and> current_round s' = 2 \<and> target_score s' = 90 \<and> score s' = 9 \<and>
        vitality s' = 26 \<and> acts' = [''a''] \<and>
        train_loop single_store (a', s', g', acts', rews') = Inr (a', s', g', acts', rews')"
    by (auto simp: train split: sum.splits)
  ultimately show ?thesis by (intro conjI)
qed

text \<open>
  C10: an effect of kind \<open>DRAW\<close> is accepted when a card is constructed, and resolving it
  changes neither the state nor the log; a card resolves as the same card without its
  draw effects does. The engine handles five kinds, damage, spirit gain, focus gain, mood
  gain and play count: each of them appends one log entry, and an effect of any other
  kind is passed over as a draw effect is.
\<close>

theorem draw_effect_ignored:
  "EffectType_of (EffectType_value DRAW) = Inr DRAW \<and>
   (eff_type e = DRAW \<longrightarrow> apply_effect e (s, l) = Inr (s, l)) \<and>
   apply_effects (c\<lparr>effects := filter (\<lambda>e. eff_type e \<noteq> DRAW) (effects c)\<rparr>) s
     = apply_effects c s \<and>
   (eff_type e \<in> {DAMAGE, SPIRIT, FOCUS, MOOD, PLAY_COUNT} \<longrightarrow>
      (case apply_effect e (s, l) of
         Inl x \<Rightarrow> eff_type e = DAMAGE \<and> 0 < buff_mood s
       | Inr (s1, l1) \<Rightarrow> length l1 = length l + 1)) \<and>
   (eff_type e \<notin> {DAMAGE, SPIRIT, FOCUS, MOOD, PLAY_COUNT} \<longrightarrow>
      apply_effect e (s, l) = Inr (s, l))"
proof -
  have "EffectType_of (EffectType_value DRAW) = Inr DRAW"
    by (simp add: EffectType_of_def)
  moreover have "apply_cost (c\<lparr>effects := filter (\<lambda>e. eff_type e \<noteq> DRAW) (effects c)\<rparr>) s
      = apply_cost c s"
    by (simp add: apply_cost_def)
  then have "apply_effects (c\<lparr>effects := filter (\<lambda>e. eff_type e \<noteq> DRAW) (effects c)\<rparr>) s
      = apply_effects c s"
    by (simp add: apply_effects_def apply_effects_loop_without_draw)
  moreover have "eff_type e \<in> {DAMAGE, SPIRIT, FOCUS, MOOD, PLAY_COUNT} \<longrightarrow>
      (case apply_effect e (s, l) of
         Inl x \<Rightarrow> eff_type e = DAMAGE \<and> 0 < buff_mood s
       | Inr (s1, l1) \<Rightarrow> length l1 = length l + 1)"
    by (auto simp: Let_def split: sum.splits)
  moreover have "eff_type e \<notin> {DAMAGE, SPIRIT, FOCUS, MOOD, PLAY_COUNT} \<longrightarrow>
      apply_effect e (s, l) = Inr (s, l)"
    by simp
  ultimately show ?thesis by simp
qed

theorem draw_effect_ignored_witness:
  "apply_effect (example_effect DRAW 2) (GameState_fields [] 9 90 5 30, [LogVitalityCost 4])
     = Inr (GameState_fields [] 9 90 5 30, [LogVitalityCost 4]) \<and>
   apply_effects (example_card 4 False False [example_effect DRAW 2, example_effect DAMAGE 9])
       (GameState_fields [] 9 90 5 30)
     = apply_effects (example_card 4 False False [example_effect DAMAGE 9])
         (GameState_fields [] 9 90 5 30) \<and>
   (case apply_effects (example_card 4 False False [example_effect DRAW 2, example_effect DAMAGE 9])
           (GameState_fields [] 9 90 5 30) of
      Inl x \<Rightarrow> False
    | Inr (s1, l1) \<Rightarrow> l1 = [LogVitalityCost 4, LogDamage 9 0 False 9])"
  using draw_effect_ignored [of "example_effect DRAW 2" "GameState_fields [] 9 90 5 30"
      "[LogVitalityCost 4]"
      "example_card 4 False False [example_effect DRAW 2, example_effect DAMAGE 9]"]
  by (simp add: example_effect_def example_card_def apply_effects_def apply_cost_def
      GameState_fields_def)

end
